theory Spec2Isabelle
  imports Main
begin

section \<open>Protocol messages\<close>

text \<open>
  The messages of the Assist RPC, as far as \<^verbatim>\<open>pushtotalk.py\<close> reads or builds them.
  Byte strings are lists of 8-bit characters. The three enumerations are those of
  \<^verbatim>\<open>embedded_assistant_pb2\<close> that the module names.
\<close>

type_synonym bytes = string

datatype event_type = EVENT_TYPE_UNSPECIFIED | END_OF_UTTERANCE

datatype microphone_mode = MICROPHONE_MODE_UNSPECIFIED | CLOSE_MICROPHONE | DIALOG_FOLLOW_ON

datatype screen_mode = SCREEN_MODE_UNSPECIFIED | PLAYING

text \<open>
  One \<^verbatim>\<open>AssistResponse\<close>. The fields are, in order: \<^verbatim>\<open>event_type\<close>,
  the transcripts of \<^verbatim>\<open>speech_results\<close>, \<^verbatim>\<open>audio_out.audio_data\<close>,
  \<^verbatim>\<open>dialog_state_out.conversation_state\<close>, \<^verbatim>\<open>dialog_state_out.volume_percentage\<close>,
  \<^verbatim>\<open>dialog_state_out.microphone_mode\<close>, \<^verbatim>\<open>device_action.device_request_json\<close>
  and \<^verbatim>\<open>screen_out.data\<close>. An unset field holds its default (empty, zero, unspecified).
\<close>

record assist_response =
  resp_event_type :: event_type
  resp_speech_results :: "string list"
  resp_audio_data :: bytes
  resp_conversation_state :: bytes
  resp_volume_percentage :: int
  resp_microphone_mode :: microphone_mode
  resp_device_request_json :: string
  resp_screen_data :: bytes

text \<open>
  The \<^verbatim>\<open>AssistConfig\<close> built by \<^verbatim>\<open>gen_assist_requests\<close>, without the two encodings,
  which are the constant \<^verbatim>\<open>LINEAR16\<close>. A conversation state of \<^verbatim>\<open>None\<close> leaves the
  bytes field of the message at its default, the empty byte string.
\<close>

record assist_config =
  cfg_audio_in_sample_rate :: int
  cfg_audio_out_sample_rate :: int
  cfg_volume_percentage :: int
  cfg_language_code :: string
  cfg_conversation_state :: bytes
  cfg_is_new_conversation :: bool
  cfg_device_id :: string
  cfg_device_model_id :: string
  cfg_screen_mode :: screen_mode

datatype assist_request = is_Config: Config assist_config | is_AudioIn: AudioIn bytes

section \<open>Exceptions\<close>

text \<open>
  The status codes of gRPC, and the exceptions that can leave \<^verbatim>\<open>assist\<close>:
  a \<^verbatim>\<open>grpc.RpcError\<close> with its code, the \<^verbatim>\<open>ValueError\<close> of \<^verbatim>\<open>json.loads\<close>,
  and the \<^verbatim>\<open>RetryError\<close> that the retry decorator raises when it gives up and was
  not asked to re-raise.
\<close>

datatype status_code =
    CANCELLED | UNKNOWN | INVALID_ARGUMENT | DEADLINE_EXCEEDED | NOT_FOUND
  | ALREADY_EXISTS | PERMISSION_DENIED | RESOURCE_EXHAUSTED | FAILED_PRECONDITION
  | ABORTED | OUT_OF_RANGE | UNIMPLEMENTED | INTERNAL | UNAVAILABLE | DATA_LOSS
  | UNAUTHENTICATED

datatype exn = RpcError status_code | ValueError | RetryError

section \<open>The conversation stream and the assistant object\<close>

type_synonym future = nat

text \<open>
  The calls the program makes on its collaborators, in program order: the calls on the
  conversation stream, the requests the transport takes from the request generator, the
  wait on the futures of the device actions, and the display of a screen payload.
\<close>

datatype event =
    StartRecording | StopRecording | StartPlayback | StopPlayback
  | Write bytes | Close
  | Sent assist_request
  | WaitFutures "future list"
  | Display bytes

text \<open>
  Modelled from the spec: the class \<^verbatim>\<open>ConversationStream\<close> of \<^verbatim>\<open>audio_helpers\<close> is
  not among the sources. The spec gives the audio channel start-recording,
  stop-recording (idempotent), start-playback, stop-playback, a playback-active flag,
  and sample-rate and volume metadata; the record holds the two activity flags and the
  metadata, and each operation below sets its flag and logs the call.
\<close>

record conversation_stream =
  recording :: bool
  playing :: bool
  sample_rate :: int
  volume_percentage :: int

text \<open>
  The fields of \<^verbatim>\<open>SampleAssistant\<close> set by \<^verbatim>\<open>__init__\<close> (the gRPC stub and the
  deadline take no part in what follows), and the log of calls made so far.
\<close>

record sample_assistant =
  language_code :: string
  device_model_id :: string
  device_id :: string
  stream :: conversation_stream
  display :: bool
  conversation_state :: "bytes option"
  is_new_conversation :: bool
  trace :: "event list"

text \<open>
  Modelled from the spec: the operations of the conversation stream that \<^verbatim>\<open>assist\<close> and
  \<^verbatim>\<open>__exit__\<close> call, none of them among the sources. Starting and stopping the recording
  or the playback sets the flag of that activity (stopping what is not running changes
  nothing but the log); \<^verbatim>\<open>write\<close> hands a buffer to the sink; \<^verbatim>\<open>close\<close> releases the
  stream. Each call is appended to the log.
\<close>

definition emit :: "event \<Rightarrow> sample_assistant \<Rightarrow> sample_assistant" where
  "emit e s = s\<lparr>trace := trace s @ [e]\<rparr>"

definition start_recording :: "sample_assistant \<Rightarrow> sample_assistant" where
  "start_recording s = emit StartRecording (s\<lparr>stream := (stream s)\<lparr>recording := True\<rparr>\<rparr>)"

definition stop_recording :: "sample_assistant \<Rightarrow> sample_assistant" where
  "stop_recording s = emit StopRecording (s\<lparr>stream := (stream s)\<lparr>recording := False\<rparr>\<rparr>)"

definition start_playback :: "sample_assistant \<Rightarrow> sample_assistant" where
  "start_playback s = emit StartPlayback (s\<lparr>stream := (stream s)\<lparr>playing := True\<rparr>\<rparr>)"

definition stop_playback :: "sample_assistant \<Rightarrow> sample_assistant" where
  "stop_playback s = emit StopPlayback (s\<lparr>stream := (stream s)\<lparr>playing := False\<rparr>\<rparr>)"

definition stream_write :: "bytes \<Rightarrow> sample_assistant \<Rightarrow> sample_assistant" where
  "stream_write buf s = emit (Write buf) s"

definition close :: "sample_assistant \<Rightarrow> sample_assistant" where
  "close s = emit Close s"

text \<open>\<^verbatim>\<open>SampleAssistant.__init__\<close>: no conversation state, and the first conversation is new.\<close>

definition init :: "string \<Rightarrow> string \<Rightarrow> string \<Rightarrow> conversation_stream \<Rightarrow> bool \<Rightarrow> sample_assistant" where
  "init lang model_id dev_id cs disp =
     \<lparr>language_code = lang, device_model_id = model_id, device_id = dev_id,
      stream = cs, display = disp,
      conversation_state = None, is_new_conversation = True, trace = []\<rparr>"

section \<open>The request generator\<close>

definition build_config :: "sample_assistant \<Rightarrow> assist_config" where
  "build_config s =
     \<lparr>cfg_audio_in_sample_rate = sample_rate (stream s),
      cfg_audio_out_sample_rate = sample_rate (stream s),
      cfg_volume_percentage = volume_percentage (stream s),
      cfg_language_code = language_code s,
      cfg_conversation_state = (case conversation_state s of None \<Rightarrow> [] | Some t \<Rightarrow> t),
      cfg_is_new_conversation = is_new_conversation s,
      cfg_device_id = device_id s,
      cfg_device_model_id = device_model_id s,
      cfg_screen_mode = (if display s then PLAYING else SCREEN_MODE_UNSPECIFIED)\<rparr>"

text \<open>
  \<^verbatim>\<open>gen_assist_requests\<close> is a generator: its body runs only as far as the transport
  asks for requests. \<open>pulled\<close> is the number of requests the transport takes, and
  \<open>audio\<close> the chunks that iterating the conversation stream yields. Nothing runs when
  nothing is taken; the first request taken builds the config from the fields of the
  assistant, clears \<^verbatim>\<open>is_new_conversation\<close> and yields the config; each further one
  yields the next chunk.
\<close>

definition gen_assist_requests ::
  "nat \<Rightarrow> bytes list \<Rightarrow> sample_assistant \<Rightarrow> assist_request list \<times> sample_assistant" where
  "gen_assist_requests pulled audio s =
     (if pulled = 0 then ([], s)
      else (Config (build_config s) # map AudioIn (take (pulled - 1) audio),
            s\<lparr>is_new_conversation := False\<rparr>))"

section \<open>One execution of the body of assist\<close>

text \<open>
  What the service and the audio source do during one call of the RPC: how many requests
  the transport takes, the chunks the source yields, the responses the response iterator
  yields, and the status with which it then fails, if it does.
\<close>

record rpc_call =
  rpc_pulled :: nat
  rpc_audio :: "bytes list"
  rpc_responses :: "assist_response list"
  rpc_error :: "status_code option"

text \<open>
  The body of the \<^verbatim>\<open>for resp in ...\<close> loop, for one response. \<open>loads\<close> stands for
  \<^verbatim>\<open>json.loads\<close> (\<open>None\<close> when it raises \<^verbatim>\<open>ValueError\<close>) and \<open>device_handler\<close> for
  the handler object, which returns the futures of the commands it submitted. The
  transcript of the speech results is only logged. The result carries the assistant,
  and either the exception raised or the new values of \<^verbatim>\<open>continue_conversation\<close> and
  \<^verbatim>\<open>device_actions_futures\<close>.
\<close>

definition on_event_type :: "assist_response \<Rightarrow> sample_assistant \<Rightarrow> sample_assistant" where
  "on_event_type resp s =
     (if resp_event_type resp = END_OF_UTTERANCE then stop_recording s else s)"

definition on_audio_out :: "assist_response \<Rightarrow> sample_assistant \<Rightarrow> sample_assistant" where
  "on_audio_out resp s =
     (if length (resp_audio_data resp) > 0
      then stream_write (resp_audio_data resp)
             (if \<not> playing (stream s) then start_playback (stop_recording s) else s)
      else s)"

definition on_dialog_state :: "assist_response \<Rightarrow> sample_assistant \<Rightarrow> sample_assistant" where
  "on_dialog_state resp s =
     (let s1 = (if resp_conversation_state resp \<noteq> []
                then s\<lparr>conversation_state := Some (resp_conversation_state resp)\<rparr> else s)
      in if resp_volume_percentage resp \<noteq> 0
         then s1\<lparr>stream := (stream s1)\<lparr>volume_percentage := resp_volume_percentage resp\<rparr>\<rparr>
         else s1)"

definition on_microphone_mode :: "assist_response \<Rightarrow> bool \<Rightarrow> bool" where
  "on_microphone_mode resp cc =
     (if resp_microphone_mode resp = DIALOG_FOLLOW_ON then True
      else if resp_microphone_mode resp = CLOSE_MICROPHONE then False
      else cc)"

definition on_screen_out :: "assist_response \<Rightarrow> sample_assistant \<Rightarrow> sample_assistant" where
  "on_screen_out resp s =
     (if display s \<and> resp_screen_data resp \<noteq> [] then emit (Display (resp_screen_data resp)) s
      else s)"

definition handle_response ::
  "(string \<Rightarrow> 'j option) \<Rightarrow> ('j \<Rightarrow> future list) \<Rightarrow> assist_response \<Rightarrow>
   sample_assistant \<Rightarrow> bool \<Rightarrow> future list \<Rightarrow>
   sample_assistant \<times> (exn + bool \<times> future list)" where
  "handle_response loads device_handler resp s cc fs =
     (let s1 = on_dialog_state resp (on_audio_out resp (on_event_type resp s));
          cc1 = on_microphone_mode resp cc
      in if resp_device_request_json resp \<noteq> []
         then (case loads (resp_device_request_json resp) of
                 None \<Rightarrow> (s1, Inl ValueError)
               | Some device_request \<Rightarrow>
                   (on_screen_out resp s1, Inr (cc1, fs @ device_handler device_request)))
         else (on_screen_out resp s1, Inr (cc1, fs)))"

fun assist_loop ::
  "(string \<Rightarrow> 'j option) \<Rightarrow> ('j \<Rightarrow> future list) \<Rightarrow> assist_response list \<Rightarrow>
   sample_assistant \<Rightarrow> bool \<Rightarrow> future list \<Rightarrow>
   sample_assistant \<times> (exn + bool \<times> future list)" where
  "assist_loop loads device_handler [] s cc fs = (s, Inr (cc, fs))"
| "assist_loop loads device_handler (resp # rest) s cc fs =
     (case handle_response loads device_handler resp s cc fs of
        (s', Inl e) \<Rightarrow> (s', Inl e)
      | (s', Inr (cc', fs')) \<Rightarrow> assist_loop loads device_handler rest s' cc' fs')"

text \<open>
  The body of \<^verbatim>\<open>assist\<close>, once: start recording, let the transport take its requests,
  consume the responses, and, if the response iterator ends without an error, wait for
  the futures (when there are any), stop playback and return \<^verbatim>\<open>continue_conversation\<close>.
  The requests are taken by the transport while the responses arrive; the order chosen
  here, requests first, fixes the fields the config is built from as those at the start
  of the call.
\<close>

definition send_requests :: "rpc_call \<Rightarrow> sample_assistant \<Rightarrow> sample_assistant" where
  "send_requests rpc s =
     (case gen_assist_requests (rpc_pulled rpc) (rpc_audio rpc) s of
        (reqs, s') \<Rightarrow> s'\<lparr>trace := trace s' @ map Sent reqs\<rparr>)"

definition wait_futures :: "future list \<Rightarrow> sample_assistant \<Rightarrow> sample_assistant" where
  "wait_futures fs s = (if length fs \<noteq> 0 then emit (WaitFutures fs) s else s)"

definition assist_body ::
  "(string \<Rightarrow> 'j option) \<Rightarrow> ('j \<Rightarrow> future list) \<Rightarrow> rpc_call \<Rightarrow>
   sample_assistant \<Rightarrow> sample_assistant \<times> (exn + bool)" where
  "assist_body loads device_handler rpc s =
     (case assist_loop loads device_handler (rpc_responses rpc)
             (send_requests rpc (start_recording s)) False [] of
        (s', Inl e) \<Rightarrow> (s', Inl e)
      | (s', Inr (cc, fs)) \<Rightarrow>
          (case rpc_error rpc of
             Some code \<Rightarrow> (s', Inl (RpcError code))
           | None \<Rightarrow> (stop_playback (wait_futures fs s'), Inr cc)))"

section \<open>The retry decorator\<close>

definition is_grpc_error_unavailable :: "exn \<Rightarrow> bool" where
  "is_grpc_error_unavailable e = (case e of RpcError code \<Rightarrow> code = UNAVAILABLE | _ \<Rightarrow> False)"

text \<open>
  The decorator \<^verbatim>\<open>retry(reraise, stop=stop_after_attempt(n), retry=retry_if_exception(p))\<close>
  of the tenacity library: call the function; a result is returned; an exception that
  \<open>p\<close> rejects is raised as it is; an exception that \<open>p\<close> accepts ends the calls once
  the attempt number has reached \<open>n\<close>, with that exception when \<open>reraise\<close> is set and
  with \<^verbatim>\<open>RetryError\<close> otherwise, and leads to the next attempt before that.
  \<open>f k\<close> is the \<open>k\<close>-th attempt; the third component of the result is the number of
  attempts made.
\<close>

function retry_call ::
  "bool \<Rightarrow> nat \<Rightarrow> (exn \<Rightarrow> bool) \<Rightarrow> (nat \<Rightarrow> 's \<Rightarrow> 's \<times> (exn + 'a)) \<Rightarrow> nat \<Rightarrow> 's \<Rightarrow>
   's \<times> (exn + 'a) \<times> nat" where
  "retry_call reraise n p f k s =
     (case f k s of
        (s', Inr v) \<Rightarrow> (s', Inr v, k)
      | (s', Inl e) \<Rightarrow>
          if \<not> p e then (s', Inl e, k)
          else if k \<ge> n then (s', Inl (if reraise then e else RetryError), k)
          else retry_call reraise n p f (Suc k) s')"
  by pat_completeness auto
termination
  by (relation "measure (\<lambda>(reraise, n, p, f, k, s). n - k)") auto

declare retry_call.simps [simp del]

text \<open>
  \<^verbatim>\<open>assist\<close> as decorated: at most three attempts, retried on an unavailable service,
  the last exception re-raised. \<open>rpcs k\<close> is what the service does during attempt \<open>k\<close>.
\<close>

definition assist ::
  "(string \<Rightarrow> 'j option) \<Rightarrow> ('j \<Rightarrow> future list) \<Rightarrow> (nat \<Rightarrow> rpc_call) \<Rightarrow>
   sample_assistant \<Rightarrow> sample_assistant \<times> (exn + bool) \<times> nat" where
  "assist loads device_handler rpcs s =
     retry_call True 3 is_grpc_error_unavailable
       (\<lambda>k. assist_body loads device_handler (rpcs k)) 1 s"

section \<open>Leaving the session\<close>

text \<open>
  \<^verbatim>\<open>__exit__\<close>, given the exception that leaves the \<^verbatim>\<open>with\<close> block, if any. The
  second component is the truth value of what it returns: \<^verbatim>\<open>False\<close> in the first
  branch and \<^verbatim>\<open>None\<close> in the second, so the exception is never suppressed.
\<close>

definition exit :: "exn option \<Rightarrow> sample_assistant \<Rightarrow> sample_assistant \<times> bool" where
  "exit e s = (if e \<noteq> None then (s, False) else (close s, False))"

text \<open>
  The \<^verbatim>\<open>with SampleAssistant(...) as assistant:\<close> statement of \<^verbatim>\<open>main\<close> around a
  block \<open>body\<close>: \<^verbatim>\<open>__enter__\<close> returns the object, and \<^verbatim>\<open>__exit__\<close> runs when the block
  returns or raises. An exception of the block goes on unless \<^verbatim>\<open>__exit__\<close> returns a
  true value; the statement then ends normally, without a value of the block.
\<close>

definition with_assistant ::
  "(sample_assistant \<Rightarrow> sample_assistant \<times> (exn + 'a)) \<Rightarrow> sample_assistant \<Rightarrow>
   sample_assistant \<times> (exn + 'a option)" where
  "with_assistant body s =
     (case body s of
        (s', Inl e) \<Rightarrow>
          (case exit (Some e) s' of
             (s'', suppress) \<Rightarrow> (s'', if suppress then Inr None else Inl e))
      | (s', Inr v) \<Rightarrow> (case exit None s' of (s'', suppress) \<Rightarrow> (s'', Inr (Some v))))"

text \<open>
  The block of \<^verbatim>\<open>main\<close> when an audio file is given or \<^verbatim>\<open>--once\<close> is set: one call
  of \<^verbatim>\<open>assist\<close>, whose result is dropped.
\<close>

definition main_once ::
  "(string \<Rightarrow> 'j option) \<Rightarrow> ('j \<Rightarrow> future list) \<Rightarrow> (nat \<Rightarrow> rpc_call) \<Rightarrow>
   sample_assistant \<Rightarrow> sample_assistant \<times> (exn + unit option)" where
  "main_once loads device_handler rpcs s =
     with_assistant
       (\<lambda>s0. case assist loads device_handler rpcs s0 of
                (s', Inl e, k) \<Rightarrow> (s', Inl e)
              | (s', Inr cc, k) \<Rightarrow> (s', Inr ())) s"

text \<open>
  The assistant after successive calls of \<^verbatim>\<open>assist\<close> on it, whatever their outcomes:
  \<^verbatim>\<open>main\<close> calls \<^verbatim>\<open>assist\<close> once, or once for every hotword detected. \<open>turns\<close> lists,
  for each call, what the service does during the attempts of that call.
\<close>

fun assist_calls ::
  "(string \<Rightarrow> 'j option) \<Rightarrow> ('j \<Rightarrow> future list) \<Rightarrow> (nat \<Rightarrow> rpc_call) list \<Rightarrow>
   sample_assistant \<Rightarrow> sample_assistant" where
  "assist_calls loads device_handler [] s = s"
| "assist_calls loads device_handler (rpcs # turns) s =
     assist_calls loads device_handler turns (fst (assist loads device_handler rpcs s))"

section \<open>Reading the log\<close>

text \<open>The buffers written to the conversation stream, in the order of the calls.\<close>

fun written :: "event list \<Rightarrow> bytes list" where
  "written [] = []"
| "written (Write buf # es) = buf # written es"
| "written (e # es) = written es"

text \<open>The configs taken by the transport, in the order they were sent.\<close>

fun sent_configs :: "event list \<Rightarrow> assist_config list" where
  "sent_configs [] = []"
| "sent_configs (Sent (Config c) # es) = c # sent_configs es"
| "sent_configs (e # es) = sent_configs es"

text \<open>
  How the configs sent and the flag \<^verbatim>\<open>is_new_conversation\<close> change from a state \<open>s\<close> of
  the assistant to a later state \<open>s'\<close>: the configs sent between the two are \<open>new\<close>; all
  but the first of them carry a false flag; the first carries the flag of \<open>s\<close>, and once
  a config was sent the flag of \<open>s'\<close> is false; with none sent the flag is unchanged.
\<close>

definition flag_step :: "sample_assistant \<Rightarrow> sample_assistant \<Rightarrow> bool" where
  "flag_step s s' =
     (\<exists>new. sent_configs (trace s') = sent_configs (trace s) @ new
        \<and> list_all (\<lambda>c. \<not> cfg_is_new_conversation c) (tl new)
        \<and> (if new = [] then is_new_conversation s' = is_new_conversation s
           else cfg_is_new_conversation (hd new) = is_new_conversation s
                \<and> \<not> is_new_conversation s'))"

text \<open>Every device request of the responses that is present decodes.\<close>

definition decodable :: "(string \<Rightarrow> 'j option) \<Rightarrow> assist_response list \<Rightarrow> bool" where
  "decodable loads resps =
     list_all (\<lambda>r. resp_device_request_json r = [] \<or> loads (resp_device_request_json r) \<noteq> None)
       resps"

text \<open>
  The futures the handler returns for the device requests of the responses, in order.
\<close>

fun device_futures ::
  "(string \<Rightarrow> 'j option) \<Rightarrow> ('j \<Rightarrow> future list) \<Rightarrow> assist_response list \<Rightarrow> future list" where
  "device_futures loads device_handler [] = []"
| "device_futures loads device_handler (r # rs) =
     (if resp_device_request_json r = [] then []
      else case loads (resp_device_request_json r) of
             None \<Rightarrow> [] | Some device_request \<Rightarrow> device_handler device_request)
     @ device_futures loads device_handler rs"

section \<open>Sample data\<close>

text \<open>
  A response with every field at its default, a stream that is neither recording nor
  playing, and a fresh assistant. \<open>loads_sample\<close> is a decoder for the examples: it
  decodes the empty object and rejects every other text, as \<^verbatim>\<open>json.loads\<close> decodes
  \<^verbatim>\<open>{}\<close> and raises on \<^verbatim>\<open>{\<close>, the two texts the examples use. \<open>handler_sample\<close>
  submits one command, with future 7, for every request.
\<close>

definition no_response :: assist_response where
  "no_response =
     \<lparr>resp_event_type = EVENT_TYPE_UNSPECIFIED, resp_speech_results = [],
      resp_audio_data = [], resp_conversation_state = [], resp_volume_percentage = 0,
      resp_microphone_mode = MICROPHONE_MODE_UNSPECIFIED, resp_device_request_json = [],
      resp_screen_data = []\<rparr>"

definition idle_stream :: conversation_stream where
  "idle_stream = \<lparr>recording = False, playing = False, sample_rate = 16000, volume_percentage = 50\<rparr>"

definition fresh_assistant :: sample_assistant where
  "fresh_assistant = init ''en-US'' ''model'' ''device'' idle_stream False"

definition loads_sample :: "string \<Rightarrow> (string \<times> string) list option" where
  "loads_sample text = (if text = ''{}'' then Some [] else None)"

definition handler_sample :: "(string \<times> string) list \<Rightarrow> future list" where
  "handler_sample device_request = [7]"

definition rpc_of :: "assist_response list \<Rightarrow> status_code option \<Rightarrow> rpc_call" where
  "rpc_of resps err = \<lparr>rpc_pulled = 1, rpc_audio = [], rpc_responses = resps, rpc_error = err\<rparr>"

section \<open>Basic facts about one response and the loop\<close>

lemma emit_simps [simp]:
  "trace (emit e s) = trace s @ [e]"
  "stream (emit e s) = stream s"
  "display (emit e s) = display s"
  "conversation_state (emit e s) = conversation_state s"
  "is_new_conversation (emit e s) = is_new_conversation s"
  by (simp_all add: emit_def)

lemmas step_defs =
  handle_response_def on_event_type_def on_audio_out_def on_dialog_state_def
  on_screen_out_def stop_recording_def start_playback_def stream_write_def Let_def

lemma handle_response_trace:
  "trace (fst (handle_response loads h r s cc fs)) =
     trace s
     @ (if resp_event_type r = END_OF_UTTERANCE then [StopRecording] else [])
     @ (if resp_audio_data r = [] then []
        else (if playing (stream s) then [] else [StopRecording, StartPlayback])
             @ [Write (resp_audio_data r)])
     @ (if display s \<and> resp_screen_data r \<noteq> []
           \<and> (resp_device_request_json r = [] \<or> loads (resp_device_request_json r) \<noteq> None)
        then [Display (resp_screen_data r)] else [])"
  by (auto simp: step_defs split: option.splits)

lemma handle_response_playing:
  "playing (stream (fst (handle_response loads h r s cc fs))) =
     (playing (stream s) \<or> resp_audio_data r \<noteq> [])"
  by (auto simp: step_defs split: option.splits)

lemma handle_response_recording:
  "recording (stream (fst (handle_response loads h r s cc fs))) =
     (recording (stream s) \<and> resp_event_type r \<noteq> END_OF_UTTERANCE
      \<and> (resp_audio_data r = [] \<or> playing (stream s)))"
  by (auto simp: step_defs split: option.splits)

lemma handle_response_conversation_state:
  "conversation_state (fst (handle_response loads h r s cc fs)) =
     (if resp_conversation_state r \<noteq> [] then Some (resp_conversation_state r)
      else conversation_state s)"
  by (auto simp: step_defs split: option.splits)

lemma handle_response_flags:
  "is_new_conversation (fst (handle_response loads h r s cc fs)) = is_new_conversation s"
  "display (fst (handle_response loads h r s cc fs)) = display s"
  by (auto simp: step_defs split: option.splits)

lemma handle_response_result:
  "snd (handle_response loads h r s cc fs) =
     (if resp_device_request_json r = [] then Inr (on_microphone_mode r cc, fs)
      else case loads (resp_device_request_json r) of
             None \<Rightarrow> Inl ValueError
           | Some j \<Rightarrow> Inr (on_microphone_mode r cc, fs @ h j))"
  by (auto simp: step_defs split: option.splits)

lemma written_append [simp]: "written (xs @ ys) = written xs @ written ys"
  by (induction xs rule: written.induct) auto

lemma sent_configs_append [simp]: "sent_configs (xs @ ys) = sent_configs xs @ sent_configs ys"
  by (induction xs rule: sent_configs.induct) auto

lemma handle_response_written:
  "written (trace (fst (handle_response loads h r s cc fs))) =
     written (trace s) @ (if resp_audio_data r = [] then [] else [resp_audio_data r])"
  by (simp add: handle_response_trace)

lemma handle_response_sent:
  "sent_configs (trace (fst (handle_response loads h r s cc fs))) = sent_configs (trace s)"
  by (simp add: handle_response_trace)

lemma assist_loop_Cons:
  "assist_loop loads h (r # rs) s cc fs =
     (case snd (handle_response loads h r s cc fs) of
        Inl e \<Rightarrow> (fst (handle_response loads h r s cc fs), Inl e)
      | Inr (cc', fs') \<Rightarrow> assist_loop loads h rs (fst (handle_response loads h r s cc fs)) cc' fs')"
  by (simp split: prod.splits sum.splits)

lemma assist_loop_written_ok:
  "assist_loop loads h rs s cc fs = (s', Inr res) \<Longrightarrow>
   written (trace s') = written (trace s) @ filter (\<lambda>d. d \<noteq> []) (map resp_audio_data rs)"
proof (induction rs arbitrary: s cc fs)
  case Nil
  then show ?case by simp
next
  case (Cons r rs)
  obtain s1 o1 where h: "handle_response loads h r s cc fs = (s1, o1)"
    by (cases "handle_response loads h r s cc fs")
  with Cons.prems obtain cc1 fs1 where o1: "o1 = Inr (cc1, fs1)"
    and rest: "assist_loop loads h rs s1 cc1 fs1 = (s', Inr res)"
    by (cases o1) (auto split: prod.splits)
  have "written (trace s1) =
      written (trace s) @ (if resp_audio_data r = [] then [] else [resp_audio_data r])"
    using handle_response_written [of loads h r s cc fs] h by simp
  with Cons.IH [OF rest] show ?case by simp
qed

lemma assist_loop_written_prefix:
  "\<exists>n\<le>length rs. written (trace (fst (assist_loop loads h rs s cc fs))) =
     written (trace s) @ filter (\<lambda>d. d \<noteq> []) (map resp_audio_data (take n rs))"
proof (induction rs arbitrary: s cc fs)
  case Nil
  then show ?case by simp
next
  case (Cons r rs)
  obtain s1 o1 where h: "handle_response loads h r s cc fs = (s1, o1)"
    by (cases "handle_response loads h r s cc fs")
  have w: "written (trace s1) =
      written (trace s) @ (if resp_audio_data r = [] then [] else [resp_audio_data r])"
    using handle_response_written [of loads h r s cc fs] h by simp
  show ?case
  proof (cases o1)
    case (Inl e)
    with h have "fst (assist_loop loads h (r # rs) s cc fs) = s1" by simp
    with w have "written (trace (fst (assist_loop loads h (r # rs) s cc fs))) =
       written (trace s) @ filter (\<lambda>d. d \<noteq> []) (map resp_audio_data (take 1 (r # rs)))"
      by simp
    then show ?thesis by (intro exI [of _ 1]) simp
  next
    case (Inr p)
    obtain cc1 fs1 where p: "p = (cc1, fs1)" by (cases p)
    from Cons.IH [of s1 cc1 fs1] obtain n where n: "n \<le> length rs"
      "written (trace (fst (assist_loop loads h rs s1 cc1 fs1))) =
         written (trace s1) @ filter (\<lambda>d. d \<noteq> []) (map resp_audio_data (take n rs))"
      by blast
    from h Inr p have "assist_loop loads h (r # rs) s cc fs = assist_loop loads h rs s1 cc1 fs1"
      by simp
    with n w have "written (trace (fst (assist_loop loads h (r # rs) s cc fs))) =
       written (trace s) @ filter (\<lambda>d. d \<noteq> []) (map resp_audio_data (take (Suc n) (r # rs)))"
      by simp
    with n(1) show ?thesis by (intro exI [of _ "Suc n"]) simp
  qed
qed

lemma assist_loop_result:
  "snd (assist_loop loads h rs s cc fs) =
     (if decodable loads rs
      then Inr (foldl (\<lambda>c r. on_microphone_mode r c) cc rs, fs @ device_futures loads h rs)
      else Inl ValueError)"
proof (induction rs arbitrary: s cc fs)
  case Nil
  then show ?case by (simp add: decodable_def)
next
  case (Cons r rs)
  show ?case
    using Cons.IH
    by (auto simp: assist_loop_Cons handle_response_result decodable_def
        simp del: assist_loop.simps(2) split: option.splits)
qed

lemma foldl_microphone_mode:
  "foldl (\<lambda>c r. on_microphone_mode r c) cc rs =
     (let ds = filter (\<lambda>m. m \<noteq> MICROPHONE_MODE_UNSPECIFIED) (map resp_microphone_mode rs)
      in if ds = [] then cc else last ds = DIALOG_FOLLOW_ON)"
proof (induction rs arbitrary: cc)
  case Nil
  then show ?case by simp
next
  case (Cons r rs)
  have step: "foldl (\<lambda>c r. on_microphone_mode r c) cc (r # rs) =
      foldl (\<lambda>c r. on_microphone_mode r c) (on_microphone_mode r cc) rs"
    by simp
  have v: "on_microphone_mode r cc =
      (if resp_microphone_mode r = DIALOG_FOLLOW_ON then True
       else if resp_microphone_mode r = CLOSE_MICROPHONE then False else cc)"
    by (simp add: on_microphone_mode_def)
  show ?case
    unfolding step Cons.IH v
    by (cases "resp_microphone_mode r") (simp_all add: Let_def)
qed

lemma assist_loop_state_ok:
  "decodable loads rs \<Longrightarrow>
   fst (assist_loop loads h rs s cc fs) =
     foldl (\<lambda>s r. fst (handle_response loads h r s False [])) s rs"
proof (induction rs arbitrary: s cc fs)
  case Nil
  then show ?case by simp
next
  case (Cons r rs)
  have eq: "fst (handle_response loads h r s cc fs) = fst (handle_response loads h r s False [])"
    by (simp add: handle_response_def Let_def split: option.splits)
  from Cons.prems have d: "decodable loads rs" by (simp add: decodable_def)
  from Cons.prems show ?case
    using Cons.IH [OF d]
    by (auto simp: assist_loop_Cons handle_response_result decodable_def eq
        simp del: assist_loop.simps(2) split: option.splits)
qed

lemma foldl_conversation_state:
  "conversation_state (foldl (\<lambda>s r. fst (handle_response loads h r s False [])) s rs) =
     (let toks = filter (\<lambda>t. t \<noteq> []) (map resp_conversation_state rs)
      in if toks = [] then conversation_state s else Some (last toks))"
proof (induction rs arbitrary: s)
  case Nil
  then show ?case by simp
next
  case (Cons r rs)
  show ?case
    by (simp add: Cons.IH handle_response_conversation_state Let_def)
qed

lemma assist_loop_flags:
  "is_new_conversation (fst (assist_loop loads h rs s cc fs)) = is_new_conversation s"
  "sent_configs (trace (fst (assist_loop loads h rs s cc fs))) = sent_configs (trace s)"
proof (induction rs arbitrary: s cc fs)
  case Nil
  { case 1 show ?case by simp }
  { case 2 show ?case by simp }
next
  case (Cons r rs)
  { case 1 show ?case
      by (simp add: assist_loop_Cons Cons.IH handle_response_flags del: assist_loop.simps(2)
          split: sum.splits prod.splits) }
  { case 2 show ?case
      by (simp add: assist_loop_Cons Cons.IH handle_response_sent del: assist_loop.simps(2)
          split: sum.splits prod.splits) }
qed

lemma assist_loop_append:
  "decodable loads pre \<Longrightarrow>
   assist_loop loads h (pre @ rest) s cc fs =
     assist_loop loads h rest (fst (assist_loop loads h pre s cc fs))
       (foldl (\<lambda>c r. on_microphone_mode r c) cc pre) (fs @ device_futures loads h pre)"
proof (induction pre arbitrary: s cc fs)
  case Nil
  show ?case by simp
next
  case (Cons r pre)
  from Cons.prems have d: "decodable loads pre"
    and ok: "resp_device_request_json r = [] \<or> loads (resp_device_request_json r) \<noteq> None"
    by (simp_all add: decodable_def)
  show ?case
  proof (cases "resp_device_request_json r = []")
    case True
    then show ?thesis
      using Cons.IH [OF d]
      by (simp add: assist_loop_Cons handle_response_result del: assist_loop.simps(2))
  next
    case False
    with ok obtain j where j: "loads (resp_device_request_json r) = Some j" by auto
    with False show ?thesis
      using Cons.IH [OF d]
      by (simp add: assist_loop_Cons handle_response_result del: assist_loop.simps(2))
  qed
qed

lemma assist_loop_new_events:
  "\<exists>new. trace (fst (assist_loop loads h rs s cc fs)) = trace s @ new
     \<and> set new \<subseteq> {StopRecording, StartPlayback} \<union> range Write \<union> range Display"
proof (induction rs arbitrary: s cc fs)
  case Nil
  show ?case by simp
next
  case (Cons r rs)
  let ?s1 = "fst (handle_response loads h r s cc fs)"
  have "\<exists>n1. trace ?s1 = trace s @ n1
      \<and> set n1 \<subseteq> {StopRecording, StartPlayback} \<union> range Write \<union> range Display"
    by (rule exI [of _ "drop (length (trace s)) (trace ?s1)"])
      (auto simp: handle_response_trace)
  then obtain n1 where n1: "trace ?s1 = trace s @ n1"
    "set n1 \<subseteq> {StopRecording, StartPlayback} \<union> range Write \<union> range Display"
    by blast
  show ?case
  proof (cases "snd (handle_response loads h r s cc fs)")
    case (Inl e)
    with n1 show ?thesis
      by (simp add: assist_loop_Cons del: assist_loop.simps(2))
  next
    case (Inr p)
    obtain cc1 fs1 where p: "p = (cc1, fs1)" by (cases p)
    from Cons.IH [of ?s1 cc1 fs1] obtain n2 where
      n2: "trace (fst (assist_loop loads h rs ?s1 cc1 fs1)) = trace ?s1 @ n2"
      "set n2 \<subseteq> {StopRecording, StartPlayback} \<union> range Write \<union> range Display"
      by blast
    have "trace (fst (assist_loop loads h (r # rs) s cc fs)) = trace s @ (n1 @ n2)"
      using Inr p n1(1) n2(1) by (simp add: assist_loop_Cons del: assist_loop.simps(2))
    moreover have "set (n1 @ n2) \<subseteq> {StopRecording, StartPlayback} \<union> range Write \<union> range Display"
      using n1(2) n2(2) by simp
    ultimately show ?thesis by blast
  qed
qed

section \<open>Basic facts about the body of assist\<close>

lemma send_requests_simps [simp]:
  "trace (send_requests rpc s) =
     trace s @ map Sent (fst (gen_assist_requests (rpc_pulled rpc) (rpc_audio rpc) s))"
  "stream (send_requests rpc s) = stream s"
  "display (send_requests rpc s) = display s"
  "conversation_state (send_requests rpc s) = conversation_state s"
  "is_new_conversation (send_requests rpc s) = (is_new_conversation s \<and> rpc_pulled rpc = 0)"
  by (simp_all add: send_requests_def gen_assist_requests_def)

lemma start_recording_simps [simp]:
  "trace (start_recording s) = trace s @ [StartRecording]"
  "stream (start_recording s) = (stream s)\<lparr>recording := True\<rparr>"
  "display (start_recording s) = display s"
  "conversation_state (start_recording s) = conversation_state s"
  "is_new_conversation (start_recording s) = is_new_conversation s"
  by (simp_all add: start_recording_def)

lemma stop_playback_simps [simp]:
  "trace (stop_playback s) = trace s @ [StopPlayback]"
  "stream (stop_playback s) = (stream s)\<lparr>playing := False\<rparr>"
  "display (stop_playback s) = display s"
  "conversation_state (stop_playback s) = conversation_state s"
  "is_new_conversation (stop_playback s) = is_new_conversation s"
  by (simp_all add: stop_playback_def)

lemma wait_futures_simps [simp]:
  "trace (wait_futures fs s) = trace s @ (if fs = [] then [] else [WaitFutures fs])"
  "stream (wait_futures fs s) = stream s"
  "display (wait_futures fs s) = display s"
  "conversation_state (wait_futures fs s) = conversation_state s"
  "is_new_conversation (wait_futures fs s) = is_new_conversation s"
  by (simp_all add: wait_futures_def)

lemma build_config_start_recording [simp]:
  "build_config (start_recording s) = build_config s"
  by (simp add: build_config_def start_recording_def emit_def)

lemma gen_assist_requests_take:
  "fst (gen_assist_requests pulled audio s) =
     take pulled (Config (build_config s) # map AudioIn audio)"
  by (cases pulled) (simp_all add: gen_assist_requests_def take_map)

lemma assist_body_result:
  "snd (assist_body loads h rpc s) =
     (if \<not> decodable loads (rpc_responses rpc) then Inl ValueError
      else case rpc_error rpc of
             Some code \<Rightarrow> Inl (RpcError code)
           | None \<Rightarrow> Inr (foldl (\<lambda>c r. on_microphone_mode r c) False (rpc_responses rpc)))"
proof -
  obtain s1 o1 where l: "assist_loop loads h (rpc_responses rpc)
      (send_requests rpc (start_recording s)) False [] = (s1, o1)"
    by (cases "assist_loop loads h (rpc_responses rpc)
      (send_requests rpc (start_recording s)) False []")
  have "o1 = (if decodable loads (rpc_responses rpc)
      then Inr (foldl (\<lambda>c r. on_microphone_mode r c) False (rpc_responses rpc),
                [] @ device_futures loads h (rpc_responses rpc))
      else Inl ValueError)"
    using assist_loop_result [of loads h "rpc_responses rpc"
        "send_requests rpc (start_recording s)" False "[]"] l by simp
  with l show ?thesis
    by (simp add: assist_body_def split: option.splits)
qed

lemma assist_body_fst:
  "fst (assist_body loads h rpc s) =
     (let l = assist_loop loads h (rpc_responses rpc) (send_requests rpc (start_recording s))
                False []
      in case snd l of
           Inl e \<Rightarrow> fst l
         | Inr (cc, fs) \<Rightarrow>
             (case rpc_error rpc of
                Some code \<Rightarrow> fst l
              | None \<Rightarrow> stop_playback (wait_futures fs (fst l))))"
  by (simp add: assist_body_def Let_def split: prod.splits sum.splits option.splits)

lemma sent_configs_map_Sent:
  "sent_configs (map Sent (fst (gen_assist_requests pulled audio s))) =
     (if pulled = 0 then [] else [build_config s])"
proof -
  have "sent_configs (map Sent (map AudioIn bs)) = []" for bs
    by (induction bs) simp_all
  then show ?thesis by (simp add: gen_assist_requests_def)
qed

lemma assist_body_sent:
  "sent_configs (trace (fst (assist_body loads h rpc s))) =
     sent_configs (trace s) @ (if rpc_pulled rpc = 0 then [] else [build_config s])"
  by (simp add: assist_body_fst Let_def assist_loop_flags sent_configs_map_Sent
      split: sum.splits option.splits prod.splits)

lemma assist_body_is_new:
  "is_new_conversation (fst (assist_body loads h rpc s)) =
     (is_new_conversation s \<and> rpc_pulled rpc = 0)"
  by (simp add: assist_body_fst Let_def assist_loop_flags
      split: sum.splits option.splits prod.splits)

lemma assist_body_conversation_state:
  assumes "assist_body loads h rpc s = (s1, Inr cc)"
  shows "conversation_state s1 =
     (let toks = filter (\<lambda>t. t \<noteq> []) (map resp_conversation_state (rpc_responses rpc))
      in if toks = [] then conversation_state s else Some (last toks))"
proof -
  from assms have "snd (assist_body loads h rpc s) = Inr cc" by simp
  then have d: "decodable loads (rpc_responses rpc)" and e: "rpc_error rpc = None"
    by (simp_all add: assist_body_result split: if_splits option.splits)
  have "conversation_state (fst (assist_body loads h rpc s)) =
      conversation_state (fst (assist_loop loads h (rpc_responses rpc)
         (send_requests rpc (start_recording s)) False []))"
    by (simp add: assist_body_fst Let_def split: sum.splits option.splits prod.splits)
  also have "\<dots> = (let toks = filter (\<lambda>t. t \<noteq> []) (map resp_conversation_state (rpc_responses rpc))
      in if toks = [] then conversation_state s else Some (last toks))"
    by (simp add: assist_loop_state_ok [OF d] foldl_conversation_state Let_def)
  finally show ?thesis using assms by simp
qed

lemma assist_body_new_events:
  "\<exists>new. trace (fst (assist_body loads h rpc s)) = trace s @ new
     \<and> Close \<notin> set new
     \<and> (StopPlayback \<in> set new \<longrightarrow> (\<exists>cc. snd (assist_body loads h rpc s) = Inr cc))"
proof -
  let ?s0 = "send_requests rpc (start_recording s)"
  let ?l = "assist_loop loads h (rpc_responses rpc) ?s0 False []"
  from assist_loop_new_events [of loads h "rpc_responses rpc" ?s0 False "[]"]
  obtain n where n: "trace (fst ?l) = trace ?s0 @ n"
    "set n \<subseteq> {StopRecording, StartPlayback} \<union> range Write \<union> range Display"
    by blast
  let ?pre = "StartRecording # map Sent (fst (gen_assist_requests (rpc_pulled rpc) (rpc_audio rpc)
      (start_recording s)))"
  have pre: "trace ?s0 = trace s @ ?pre" by simp
  have pre_set: "Close \<notin> set ?pre" "StopPlayback \<notin> set ?pre" by auto
  from n(2) have n_set: "Close \<notin> set n" "StopPlayback \<notin> set n" by auto
  show ?thesis
  proof (cases "\<exists>cc. snd (assist_body loads h rpc s) = Inr cc")
    case False
    then have "fst (assist_body loads h rpc s) = fst ?l"
      by (auto simp: assist_body_def split: prod.splits sum.splits option.splits)
    with n(1) pre have "trace (fst (assist_body loads h rpc s)) = trace s @ (?pre @ n)"
      by simp
    moreover have "Close \<notin> set (?pre @ n)" "StopPlayback \<notin> set (?pre @ n)"
      using pre_set n_set by simp_all
    ultimately show ?thesis by blast
  next
    case True
    then obtain fs where "fst (assist_body loads h rpc s) = stop_playback (wait_futures fs (fst ?l))"
      by (auto simp: assist_body_def split: prod.splits sum.splits option.splits)
    with n(1) pre have "trace (fst (assist_body loads h rpc s)) =
        trace s @ (?pre @ n @ (if fs = [] then [] else [WaitFutures fs]) @ [StopPlayback])"
      by simp
    moreover have "Close \<notin> set (?pre @ n @ (if fs = [] then [] else [WaitFutures fs]) @ [StopPlayback])"
      using pre_set n_set by simp
    ultimately show ?thesis using True by blast
  qed
qed

lemmas sample_defs =
  no_response_def idle_stream_def fresh_assistant_def init_def loads_sample_def
  handler_sample_def rpc_of_def

section \<open>Basic facts about the retry decorator\<close>

lemma retry_call_rel:
  "(\<And>k s. R s (fst (f k s))) \<Longrightarrow> (\<And>a b c. R a b \<Longrightarrow> R b c \<Longrightarrow> R a c) \<Longrightarrow>
   R s (fst (retry_call reraise n p f k s))"
proof (induction reraise n p f k s rule: retry_call.induct)
  case (1 reraise n p f k s)
  obtain s' r where fk: "f k s = (s', r)" by (cases "f k s")
  from "1.prems"(1) [of s k] fk have st: "R s s'" by simp
  show ?case
  proof (cases r)
    case (Inr v)
    with fk st show ?thesis by (subst retry_call.simps) simp
  next
    case (Inl e)
    show ?thesis
    proof (cases "p e \<and> \<not> n \<le> k")
      case False
      with fk Inl st show ?thesis by (subst retry_call.simps) auto
    next
      case True
      then have pe: "\<not> \<not> p e" and nk: "\<not> n \<le> k" by simp_all
      have "R s' (fst (retry_call reraise n p f (Suc k) s'))"
        by (rule "1.IH" [OF fk [symmetric] Inl pe nk "1.prems"])
      with st have "R s (fst (retry_call reraise n p f (Suc k) s'))"
        by (rule "1.prems"(2))
      with fk Inl True show ?thesis by (subst retry_call.simps) simp
    qed
  qed
qed

lemma retry_call_step:
  "retry_call reraise n p f k s =
     (let a = f k s
      in case snd a of
           Inr v \<Rightarrow> (fst a, Inr v, k)
         | Inl e \<Rightarrow>
             if \<not> p e then (fst a, Inl e, k)
             else if n \<le> k then (fst a, Inl (if reraise then e else RetryError), k)
             else retry_call reraise n p f (Suc k) (fst a))"
  by (subst retry_call.simps) (simp add: Let_def split: prod.splits sum.splits)

lemma is_grpc_error_unavailable_iff:
  "is_grpc_error_unavailable e \<longleftrightarrow> e = RpcError UNAVAILABLE"
  by (cases e) (simp_all add: is_grpc_error_unavailable_def)

lemma retry_step_lt:
  assumes "k < n" and "k' = Suc k"
  shows "retry_call True n is_grpc_error_unavailable f k s =
     (if snd (f k s) \<noteq> Inl (RpcError UNAVAILABLE) then (fst (f k s), snd (f k s), k)
      else retry_call True n is_grpc_error_unavailable f k' (fst (f k s)))"
proof (cases "snd (f k s)")
  case (Inl e)
  with assms show ?thesis
    by (subst retry_call_step) (simp add: Let_def is_grpc_error_unavailable_iff)
next
  case (Inr v)
  then show ?thesis
    by (subst retry_call_step) (simp add: Let_def)
qed

lemma retry_step_last:
  assumes "n \<le> k"
  shows "retry_call True n p f k s = (fst (f k s), snd (f k s), k)"
proof (cases "snd (f k s)")
  case (Inl e)
  with assms show ?thesis
    by (subst retry_call_step) (simp add: Let_def)
next
  case (Inr v)
  then show ?thesis
    by (subst retry_call_step) (simp add: Let_def)
qed

lemma assist_unfold:
  "assist loads h rpcs s =
     (let a1 = assist_body loads h (rpcs 1) s
      in if snd a1 \<noteq> Inl (RpcError UNAVAILABLE) then (fst a1, snd a1, 1)
         else let a2 = assist_body loads h (rpcs 2) (fst a1)
              in if snd a2 \<noteq> Inl (RpcError UNAVAILABLE) then (fst a2, snd a2, 2)
                 else let a3 = assist_body loads h (rpcs 3) (fst a2)
                      in (fst a3, snd a3, 3))"
proof -
  define f where "f = (\<lambda>k. assist_body loads h (rpcs k))"
  define retry where "retry = retry_call True 3 is_grpc_error_unavailable f"
  have t3: "retry 3 x = (fst (f 3 x), snd (f 3 x), 3)" for x
    unfolding retry_def by (rule retry_step_last) simp
  have t2: "retry 2 x =
      (if snd (f 2 x) \<noteq> Inl (RpcError UNAVAILABLE) then (fst (f 2 x), snd (f 2 x), 2)
       else retry 3 (fst (f 2 x)))" for x
    unfolding retry_def by (rule retry_step_lt) simp_all
  have t1: "retry 1 x =
      (if snd (f 1 x) \<noteq> Inl (RpcError UNAVAILABLE) then (fst (f 1 x), snd (f 1 x), 1)
       else retry 2 (fst (f 1 x)))" for x
    unfolding retry_def by (rule retry_step_lt) simp_all
  have "assist loads h rpcs s = retry 1 s"
    by (simp only: assist_def retry_def f_def)
  also have "\<dots> =
     (if snd (f 1 s) \<noteq> Inl (RpcError UNAVAILABLE) then (fst (f 1 s), snd (f 1 s), 1)
      else if snd (f 2 (fst (f 1 s))) \<noteq> Inl (RpcError UNAVAILABLE)
           then (fst (f 2 (fst (f 1 s))), snd (f 2 (fst (f 1 s))), 2)
           else (fst (f 3 (fst (f 2 (fst (f 1 s))))), snd (f 3 (fst (f 2 (fst (f 1 s))))), 3))"
    by (simp only: t1 t2 t3)
  finally show ?thesis
    by (simp only: f_def Let_def)
qed

section \<open>Audio output and playback\<close>

text \<open>
  C1. A response whose \<^verbatim>\<open>audio_out.audio_data\<close> is empty leaves the playing flag as it
  was, and calls neither \<^verbatim>\<open>start_playback\<close> nor \<^verbatim>\<open>write\<close>. A response with audio
  data that arrives while the stream is not playing calls \<^verbatim>\<open>stop_recording\<close>, then
  \<^verbatim>\<open>start_playback\<close>, then \<^verbatim>\<open>write\<close> with its data, whether or not an end of
  utterance came before; one that arrives during playback only writes. Over the whole
  loop the buffers written are the non-empty audio data of the responses, in the order
  of arrival: of all of them when the loop ends normally, of those handled so far when
  it is left by an exception.
\<close>

theorem audio_out_starts_playback:
  "(resp_audio_data r = [] \<longrightarrow>
      playing (stream (fst (handle_response loads h r s cc fs))) = playing (stream s)
      \<and> (\<exists>new. trace (fst (handle_response loads h r s cc fs)) = trace s @ new
                 \<and> StartPlayback \<notin> set new \<and> written new = []))
   \<and> (resp_audio_data r \<noteq> [] \<and> \<not> playing (stream s) \<longrightarrow>
      playing (stream (fst (handle_response loads h r s cc fs)))
      \<and> \<not> recording (stream (fst (handle_response loads h r s cc fs)))
      \<and> (\<exists>pre post. trace (fst (handle_response loads h r s cc fs)) =
             trace s @ pre @ [StopRecording, StartPlayback, Write (resp_audio_data r)] @ post
           \<and> set pre \<subseteq> {StopRecording} \<and> set post \<subseteq> {Display (resp_screen_data r)}))
   \<and> (resp_audio_data r \<noteq> [] \<and> playing (stream s) \<longrightarrow>
      playing (stream (fst (handle_response loads h r s cc fs)))
      \<and> (\<exists>pre post. trace (fst (handle_response loads h r s cc fs)) =
             trace s @ pre @ [Write (resp_audio_data r)] @ post
           \<and> set pre \<subseteq> {StopRecording} \<and> set post \<subseteq> {Display (resp_screen_data r)}))
   \<and> (\<forall>s' res. assist_loop loads h rs s cc fs = (s', Inr res) \<longrightarrow>
        written (trace s') =
          written (trace s) @ filter (\<lambda>d. d \<noteq> []) (map resp_audio_data rs))
   \<and> (\<exists>n\<le>length rs. written (trace (fst (assist_loop loads h rs s cc fs))) =
        written (trace s) @ filter (\<lambda>d. d \<noteq> []) (map resp_audio_data (take n rs)))"
proof -
  let ?s' = "fst (handle_response loads h r s cc fs)"
  let ?pre = "if resp_event_type r = END_OF_UTTERANCE then [StopRecording] else []"
  let ?post = "if display s \<and> resp_screen_data r \<noteq> []
           \<and> (resp_device_request_json r = [] \<or> loads (resp_device_request_json r) \<noteq> None)
        then [Display (resp_screen_data r)] else []"
  have a: "resp_audio_data r = [] \<longrightarrow>
      playing (stream ?s') = playing (stream s)
      \<and> (\<exists>new. trace ?s' = trace s @ new \<and> StartPlayback \<notin> set new \<and> written new = [])"
  proof
    assume e: "resp_audio_data r = []"
    have "trace ?s' = trace s @ (?pre @ ?post)"
      using e by (simp add: handle_response_trace)
    moreover have "StartPlayback \<notin> set (?pre @ ?post)" by simp
    moreover have "written (?pre @ ?post) = []" by simp
    ultimately have "\<exists>new. trace ?s' = trace s @ new \<and> StartPlayback \<notin> set new \<and> written new = []"
      by blast
    then show "playing (stream ?s') = playing (stream s)
      \<and> (\<exists>new. trace ?s' = trace s @ new \<and> StartPlayback \<notin> set new \<and> written new = [])"
      using e by (simp add: handle_response_playing)
  qed
  have b: "resp_audio_data r \<noteq> [] \<and> \<not> playing (stream s) \<longrightarrow>
      playing (stream ?s') \<and> \<not> recording (stream ?s')
      \<and> (\<exists>pre post. trace ?s' =
             trace s @ pre @ [StopRecording, StartPlayback, Write (resp_audio_data r)] @ post
           \<and> set pre \<subseteq> {StopRecording} \<and> set post \<subseteq> {Display (resp_screen_data r)})"
  proof
    assume e: "resp_audio_data r \<noteq> [] \<and> \<not> playing (stream s)"
    have "trace ?s' = trace s @ ?pre @ [StopRecording, StartPlayback, Write (resp_audio_data r)] @ ?post"
      using e by (simp add: handle_response_trace)
    moreover have "set ?pre \<subseteq> {StopRecording}" by auto
    moreover have "set ?post \<subseteq> {Display (resp_screen_data r)}" by auto
    ultimately have "\<exists>pre post. trace ?s' =
             trace s @ pre @ [StopRecording, StartPlayback, Write (resp_audio_data r)] @ post
           \<and> set pre \<subseteq> {StopRecording} \<and> set post \<subseteq> {Display (resp_screen_data r)}"
      by blast
    then show "playing (stream ?s') \<and> \<not> recording (stream ?s')
      \<and> (\<exists>pre post. trace ?s' =
             trace s @ pre @ [StopRecording, StartPlayback, Write (resp_audio_data r)] @ post
           \<and> set pre \<subseteq> {StopRecording} \<and> set post \<subseteq> {Display (resp_screen_data r)})"
      using e by (simp add: handle_response_playing handle_response_recording)
  qed
  have c: "resp_audio_data r \<noteq> [] \<and> playing (stream s) \<longrightarrow>
      playing (stream ?s')
      \<and> (\<exists>pre post. trace ?s' = trace s @ pre @ [Write (resp_audio_data r)] @ post
           \<and> set pre \<subseteq> {StopRecording} \<and> set post \<subseteq> {Display (resp_screen_data r)})"
  proof
    assume e: "resp_audio_data r \<noteq> [] \<and> playing (stream s)"
    have "trace ?s' = trace s @ ?pre @ [Write (resp_audio_data r)] @ ?post"
      using e by (simp add: handle_response_trace)
    moreover have "set ?pre \<subseteq> {StopRecording}" by auto
    moreover have "set ?post \<subseteq> {Display (resp_screen_data r)}" by auto
    ultimately have "\<exists>pre post. trace ?s' = trace s @ pre @ [Write (resp_audio_data r)] @ post
           \<and> set pre \<subseteq> {StopRecording} \<and> set post \<subseteq> {Display (resp_screen_data r)}"
      by blast
    then show "playing (stream ?s')
      \<and> (\<exists>pre post. trace ?s' = trace s @ pre @ [Write (resp_audio_data r)] @ post
           \<and> set pre \<subseteq> {StopRecording} \<and> set post \<subseteq> {Display (resp_screen_data r)})"
      using e by (simp add: handle_response_playing)
  qed
  have d: "\<forall>s' res. assist_loop loads h rs s cc fs = (s', Inr res) \<longrightarrow>
        written (trace s') =
          written (trace s) @ filter (\<lambda>d. d \<noteq> []) (map resp_audio_data rs)"
    using assist_loop_written_ok by blast
  from a b c d assist_loop_written_prefix [of rs loads h s cc fs] show ?thesis
    by blast
qed

theorem audio_out_starts_playback_witness:
  "resp_audio_data no_response = []
   \<and> \<not> playing (stream (fst (handle_response loads_sample handler_sample no_response
                 fresh_assistant False [])))
   \<and> resp_audio_data (no_response\<lparr>resp_audio_data := ''AB''\<rparr>) \<noteq> []
   \<and> \<not> playing (stream fresh_assistant)
   \<and> playing (stream (start_playback fresh_assistant))
   \<and> trace (fst (handle_response loads_sample handler_sample
               (no_response\<lparr>resp_audio_data := ''AB''\<rparr>) fresh_assistant False [])) =
         [StopRecording, StartPlayback, Write ''AB'']
   \<and> trace (fst (handle_response loads_sample handler_sample
               (no_response\<lparr>resp_audio_data := ''CD''\<rparr>) (start_playback fresh_assistant) False [])) =
         [StartPlayback, Write ''CD'']
   \<and> written (trace (fst (assist_loop loads_sample handler_sample
               [no_response\<lparr>resp_event_type := END_OF_UTTERANCE\<rparr>,
                no_response\<lparr>resp_audio_data := ''AB''\<rparr>,
                no_response\<lparr>resp_audio_data := ''CD''\<rparr>,
                no_response\<lparr>resp_microphone_mode := CLOSE_MICROPHONE\<rparr>]
               fresh_assistant False []))) = [''AB'', ''CD'']"
  using audio_out_starts_playback [where r = no_response and loads = loads_sample
      and h = handler_sample and s = fresh_assistant and cc = False and fs = "[]"
      and rs = "[no_response\<lparr>resp_event_type := END_OF_UTTERANCE\<rparr>,
                no_response\<lparr>resp_audio_data := ''AB''\<rparr>,
                no_response\<lparr>resp_audio_data := ''CD''\<rparr>,
                no_response\<lparr>resp_microphone_mode := CLOSE_MICROPHONE\<rparr>]"]
    audio_out_starts_playback [where r = "no_response\<lparr>resp_audio_data := ''AB''\<rparr>"
      and loads = loads_sample
      and h = handler_sample and s = fresh_assistant and cc = False and fs = "[]" and rs = "[]"]
    audio_out_starts_playback [where r = "no_response\<lparr>resp_audio_data := ''CD''\<rparr>"
      and loads = loads_sample
      and h = handler_sample and s = "start_playback fresh_assistant" and cc = False
      and fs = "[]" and rs = "[]"]
  by (simp add: sample_defs step_defs on_microphone_mode_def)

section \<open>The outcome of a turn\<close>

text \<open>
  C2. When the body of \<^verbatim>\<open>assist\<close> returns, the value of \<^verbatim>\<open>continue_conversation\<close> it
  returns is true exactly when some response of the call carried a microphone mode and
  the last one that did carried \<^verbatim>\<open>DIALOG_FOLLOW_ON\<close>.
\<close>

theorem continue_conversation_last_directive:
  assumes "assist_body loads h rpc s = (s', Inr cc)"
  shows "cc \<longleftrightarrow>
     (let ds = filter (\<lambda>m. m \<noteq> MICROPHONE_MODE_UNSPECIFIED)
                 (map resp_microphone_mode (rpc_responses rpc))
      in ds \<noteq> [] \<and> last ds = DIALOG_FOLLOW_ON)"
proof -
  from assms have "snd (assist_body loads h rpc s) = Inr cc" by simp
  then have "cc = foldl (\<lambda>c r. on_microphone_mode r c) False (rpc_responses rpc)"
    by (simp add: assist_body_result split: if_splits option.splits)
  then show ?thesis
    by (simp add: foldl_microphone_mode Let_def)
qed

theorem continue_conversation_last_directive_witness:
  "snd (assist_body loads_sample handler_sample
          (rpc_of [no_response\<lparr>resp_microphone_mode := CLOSE_MICROPHONE\<rparr>,
                   no_response\<lparr>resp_microphone_mode := DIALOG_FOLLOW_ON\<rparr>,
                   no_response] None) fresh_assistant) = Inr True
   \<and> snd (assist_body loads_sample handler_sample
          (rpc_of [no_response\<lparr>resp_microphone_mode := DIALOG_FOLLOW_ON\<rparr>,
                   no_response\<lparr>resp_microphone_mode := CLOSE_MICROPHONE\<rparr>] None)
          fresh_assistant) = Inr False"
proof -
  let ?r1 = "rpc_of [no_response\<lparr>resp_microphone_mode := CLOSE_MICROPHONE\<rparr>,
                   no_response\<lparr>resp_microphone_mode := DIALOG_FOLLOW_ON\<rparr>,
                   no_response] None"
  let ?r2 = "rpc_of [no_response\<lparr>resp_microphone_mode := DIALOG_FOLLOW_ON\<rparr>,
                   no_response\<lparr>resp_microphone_mode := CLOSE_MICROPHONE\<rparr>] None"
  have ok1: "\<exists>cc. snd (assist_body loads_sample handler_sample ?r1 fresh_assistant) = Inr cc"
    by (simp add: assist_body_result sample_defs decodable_def)
  have ok2: "\<exists>cc. snd (assist_body loads_sample handler_sample ?r2 fresh_assistant) = Inr cc"
    by (simp add: assist_body_result sample_defs decodable_def)
  from ok1 obtain s1 c1 where
    e1: "assist_body loads_sample handler_sample ?r1 fresh_assistant = (s1, Inr c1)"
    by (metis prod.collapse)
  from ok2 obtain s2 c2 where
    e2: "assist_body loads_sample handler_sample ?r2 fresh_assistant = (s2, Inr c2)"
    by (metis prod.collapse)
  from continue_conversation_last_directive [OF e1] have "c1" by (simp add: sample_defs)
  moreover from continue_conversation_last_directive [OF e2] have "\<not> c2"
    by (simp add: sample_defs)
  ultimately show ?thesis using e1 e2 by simp
qed

lemma no_follow_on_foldl:
  assumes "\<forall>r\<in>set rs. resp_microphone_mode r \<noteq> DIALOG_FOLLOW_ON"
  shows "foldl (\<lambda>c r. on_microphone_mode r c) False rs = False"
proof -
  let ?ds = "filter (\<lambda>m. m \<noteq> MICROPHONE_MODE_UNSPECIFIED) (map resp_microphone_mode rs)"
  have "?ds \<noteq> [] \<Longrightarrow> last ?ds \<noteq> DIALOG_FOLLOW_ON"
  proof -
    assume ne: "?ds \<noteq> []"
    then have "last ?ds \<in> set ?ds" by (rule last_in_set)
    then have "last ?ds \<in> resp_microphone_mode ` set rs" by auto
    with assms show ?thesis by auto
  qed
  then show ?thesis
    by (auto simp: foldl_microphone_mode Let_def)
qed

text \<open>
  C9. When no response of the call carries \<^verbatim>\<open>DIALOG_FOLLOW_ON\<close>, which includes the
  call without responses, the body of \<^verbatim>\<open>assist\<close> returns false whenever it returns; and
  it does return, with false, when the response iterator ends without an error and every
  device request present decodes.
\<close>

theorem default_outcome_false:
  assumes "\<forall>r\<in>set (rpc_responses rpc). resp_microphone_mode r \<noteq> DIALOG_FOLLOW_ON"
  shows "(\<forall>s' cc. assist_body loads h rpc s = (s', Inr cc) \<longrightarrow> \<not> cc)
    \<and> (rpc_error rpc = None \<and> decodable loads (rpc_responses rpc) \<longrightarrow>
         snd (assist_body loads h rpc s) = Inr False)"
proof -
  note f = no_follow_on_foldl [OF assms]
  have a: "\<forall>s' cc. assist_body loads h rpc s = (s', Inr cc) \<longrightarrow> \<not> cc"
  proof (intro allI impI)
    fix s' cc
    assume "assist_body loads h rpc s = (s', Inr cc)"
    then have "snd (assist_body loads h rpc s) = Inr cc" by simp
    then show "\<not> cc"
      by (simp add: assist_body_result f split: if_splits option.splits)
  qed
  have b: "rpc_error rpc = None \<and> decodable loads (rpc_responses rpc) \<longrightarrow>
         snd (assist_body loads h rpc s) = Inr False"
    by (simp add: assist_body_result f)
  from a b show ?thesis by blast
qed

theorem default_outcome_false_witness:
  "snd (assist_body loads_sample handler_sample (rpc_of [] None) fresh_assistant) = Inr False
   \<and> snd (assist_body loads_sample handler_sample
          (rpc_of [no_response\<lparr>resp_audio_data := ''AB'', resp_device_request_json := ''{}''\<rparr>,
                   no_response\<lparr>resp_microphone_mode := CLOSE_MICROPHONE\<rparr>] None)
          fresh_assistant) = Inr False"
  using
    default_outcome_false [where rpc = "rpc_of [] None" and loads = loads_sample
      and h = handler_sample and s = fresh_assistant]
    default_outcome_false [where rpc = "rpc_of
        [no_response\<lparr>resp_audio_data := ''AB'', resp_device_request_json := ''{}''\<rparr>,
         no_response\<lparr>resp_microphone_mode := CLOSE_MICROPHONE\<rparr>] None"
      and loads = loads_sample and h = handler_sample and s = fresh_assistant]
  by (simp add: sample_defs decodable_def)

section \<open>The retry policy\<close>

text \<open>
  C3, as amended. \<^verbatim>\<open>assist\<close> makes between one and three attempts. An attempt that
  returns, or that fails with anything but an unavailable service, ends the call with
  that very outcome and no further attempt. An attempt that fails with an unavailable
  service is followed by the next one, up to the third, whose outcome is the outcome of
  the call whatever it is: when all three fail with an unavailable service the call
  fails with that error of the third attempt, re-raised as it is, after three attempts.
\<close>

theorem retry_at_most_three_attempts:
  "(let a1 = assist_body loads h (rpcs 1) s;
        a2 = assist_body loads h (rpcs 2) (fst a1);
        a3 = assist_body loads h (rpcs 3) (fst a2);
        unavailable = Inl (RpcError UNAVAILABLE)
    in 1 \<le> snd (snd (assist loads h rpcs s)) \<and> snd (snd (assist loads h rpcs s)) \<le> 3
       \<and> (snd a1 \<noteq> unavailable \<longrightarrow> assist loads h rpcs s = (fst a1, snd a1, 1))
       \<and> (snd a1 = unavailable \<and> snd a2 \<noteq> unavailable \<longrightarrow>
            assist loads h rpcs s = (fst a2, snd a2, 2))
       \<and> (snd a1 = unavailable \<and> snd a2 = unavailable \<longrightarrow>
            assist loads h rpcs s = (fst a3, snd a3, 3))
       \<and> (snd a1 = unavailable \<and> snd a2 = unavailable \<and> snd a3 = unavailable \<longrightarrow>
            assist loads h rpcs s = (fst a3, Inl (RpcError UNAVAILABLE), 3)))"
  by (simp add: assist_unfold Let_def)

theorem retry_at_most_three_attempts_witness:
  "assist loads_sample handler_sample
     (\<lambda>k. if k = 1 then rpc_of [] (Some UNAVAILABLE)
          else rpc_of [no_response\<lparr>resp_microphone_mode := DIALOG_FOLLOW_ON\<rparr>] None)
     fresh_assistant =
   (fst (assist_body loads_sample handler_sample
           (rpc_of [no_response\<lparr>resp_microphone_mode := DIALOG_FOLLOW_ON\<rparr>] None)
           (fst (assist_body loads_sample handler_sample (rpc_of [] (Some UNAVAILABLE))
                   fresh_assistant))),
    Inr True, 2)
   \<and> fst (snd (assist loads_sample handler_sample
        (\<lambda>k. rpc_of [] (Some DEADLINE_EXCEEDED)) fresh_assistant)) =
       Inl (RpcError DEADLINE_EXCEEDED)
   \<and> snd (snd (assist loads_sample handler_sample
        (\<lambda>k. rpc_of [] (Some DEADLINE_EXCEEDED)) fresh_assistant)) = 1
   \<and> snd (snd (assist loads_sample handler_sample
        (\<lambda>k. rpc_of [] (Some UNAVAILABLE)) fresh_assistant)) = 3"
proof -
  have r1: "snd (assist_body loads_sample handler_sample (rpc_of [] (Some c)) s) =
      Inl (RpcError c)" for s c
    by (simp add: assist_body_result rpc_of_def decodable_def)
  have r2: "snd (assist_body loads_sample handler_sample
      (rpc_of [no_response\<lparr>resp_microphone_mode := DIALOG_FOLLOW_ON\<rparr>] None) s) = Inr True" for s
    by (simp add: assist_body_result rpc_of_def decodable_def no_response_def
        on_microphone_mode_def)
  note w1 = retry_at_most_three_attempts [where loads = loads_sample and h = handler_sample
      and s = fresh_assistant
      and rpcs = "\<lambda>k. if k = 1 then rpc_of [] (Some UNAVAILABLE)
          else rpc_of [no_response\<lparr>resp_microphone_mode := DIALOG_FOLLOW_ON\<rparr>] None"]
  note w2 = retry_at_most_three_attempts [where loads = loads_sample and h = handler_sample
      and s = fresh_assistant and rpcs = "\<lambda>k. rpc_of [] (Some DEADLINE_EXCEEDED)"]
  note w3 = retry_at_most_three_attempts [where loads = loads_sample and h = handler_sample
      and s = fresh_assistant and rpcs = "\<lambda>k. rpc_of [] (Some UNAVAILABLE)"]
  from w1 have a: "assist loads_sample handler_sample
     (\<lambda>k. if k = 1 then rpc_of [] (Some UNAVAILABLE)
          else rpc_of [no_response\<lparr>resp_microphone_mode := DIALOG_FOLLOW_ON\<rparr>] None)
     fresh_assistant =
   (fst (assist_body loads_sample handler_sample
           (rpc_of [no_response\<lparr>resp_microphone_mode := DIALOG_FOLLOW_ON\<rparr>] None)
           (fst (assist_body loads_sample handler_sample (rpc_of [] (Some UNAVAILABLE))
                   fresh_assistant))),
    Inr True, 2)"
    by (simp add: Let_def r1 r2)
  from w2 have b: "assist loads_sample handler_sample
        (\<lambda>k. rpc_of [] (Some DEADLINE_EXCEEDED)) fresh_assistant =
      (fst (assist_body loads_sample handler_sample (rpc_of [] (Some DEADLINE_EXCEEDED))
         fresh_assistant), Inl (RpcError DEADLINE_EXCEEDED), 1)"
    by (simp add: Let_def r1)
  from w3 have c: "snd (snd (assist loads_sample handler_sample
        (\<lambda>k. rpc_of [] (Some UNAVAILABLE)) fresh_assistant)) = 3"
    by (simp add: Let_def r1)
  from a b c show ?thesis by simp
qed

text \<open>
  C3 as stated fails: after three attempts that all fail with an unavailable service the
  call raises the \<^verbatim>\<open>RpcError\<close> of the service, not the error of the retry decorator for
  exhausted retries, because the decorator was given \<^verbatim>\<open>reraise=True\<close>.
\<close>

theorem exhausted_retries_counterexample:
  "fst (snd (assist loads_sample handler_sample (\<lambda>k. rpc_of [] (Some UNAVAILABLE))
       fresh_assistant)) = Inl (RpcError UNAVAILABLE)
   \<and> fst (snd (assist loads_sample handler_sample (\<lambda>k. rpc_of [] (Some UNAVAILABLE))
       fresh_assistant)) \<noteq> Inl RetryError
   \<and> snd (snd (assist loads_sample handler_sample (\<lambda>k. rpc_of [] (Some UNAVAILABLE))
       fresh_assistant)) = 3"
proof -
  have r1: "snd (assist_body loads_sample handler_sample (rpc_of [] (Some c)) s) =
      Inl (RpcError c)" for s c
    by (simp add: assist_body_result rpc_of_def decodable_def)
  show ?thesis
    by (simp add: assist_unfold Let_def r1)
qed

section \<open>The requests of one call\<close>

text \<open>
  C4. The requests the transport takes from \<^verbatim>\<open>gen_assist_requests\<close> are an initial part
  of the sequence that starts with the config and continues with one audio request per
  chunk, in order; taken to the end they are that whole sequence. So in what is sent the
  request at position 0, and only that one, is a config, and the request at a later
  position \<open>i\<close> is the audio request of chunk \<open>i - 1\<close>. One execution of the body of
  \<^verbatim>\<open>assist\<close> sends at most one config.
\<close>

theorem config_first_then_audio:
  "fst (gen_assist_requests pulled audio s) =
     take pulled (Config (build_config s) # map AudioIn audio)
   \<and> fst (gen_assist_requests (Suc (length audio)) audio s) =
       Config (build_config s) # map AudioIn audio
   \<and> (\<forall>i < length (fst (gen_assist_requests pulled audio s)).
        (is_Config (fst (gen_assist_requests pulled audio s) ! i) \<longleftrightarrow> i = 0)
        \<and> (0 < i \<longrightarrow> fst (gen_assist_requests pulled audio s) ! i = AudioIn (audio ! (i - 1))))
   \<and> sent_configs (trace (fst (assist_body loads h rpc s))) =
       sent_configs (trace s) @ (if rpc_pulled rpc = 0 then [] else [build_config s])"
proof -
  let ?reqs = "fst (gen_assist_requests pulled audio s)"
  have a: "?reqs = take pulled (Config (build_config s) # map AudioIn audio)"
    by (rule gen_assist_requests_take)
  have b: "fst (gen_assist_requests (Suc (length audio)) audio s) =
       Config (build_config s) # map AudioIn audio"
    by (simp add: gen_assist_requests_def)
  have c: "\<forall>i < length ?reqs.
        (is_Config (?reqs ! i) \<longleftrightarrow> i = 0)
        \<and> (0 < i \<longrightarrow> ?reqs ! i = AudioIn (audio ! (i - 1)))"
  proof (intro allI impI)
    fix i
    assume i: "i < length ?reqs"
    then have p: "i < pulled" and l: "i < Suc (length audio)"
      by (simp_all add: a)
    from p have at: "?reqs ! i = (Config (build_config s) # map AudioIn audio) ! i"
      by (simp add: a)
    show "(is_Config (?reqs ! i) \<longleftrightarrow> i = 0)
        \<and> (0 < i \<longrightarrow> ?reqs ! i = AudioIn (audio ! (i - 1)))"
    proof (cases i)
      case 0
      with at show ?thesis by simp
    next
      case (Suc j)
      with l have "j < length audio" by simp
      with at Suc show ?thesis by simp
    qed
  qed
  from a b c assist_body_sent [of loads h rpc s] show ?thesis by blast
qed

theorem config_first_then_audio_witness:
  "fst (gen_assist_requests 3 [''a1'', ''a2'', ''a3''] fresh_assistant) =
     [Config (build_config fresh_assistant), AudioIn ''a1'', AudioIn ''a2'']
   \<and> fst (gen_assist_requests 4 [''a1'', ''a2'', ''a3''] fresh_assistant) =
     [Config (build_config fresh_assistant), AudioIn ''a1'', AudioIn ''a2'', AudioIn ''a3'']
   \<and> is_Config (fst (gen_assist_requests 3 [''a1'', ''a2'', ''a3''] fresh_assistant) ! 0)
   \<and> \<not> is_Config (fst (gen_assist_requests 3 [''a1'', ''a2'', ''a3''] fresh_assistant) ! 2)
   \<and> fst (gen_assist_requests 3 [''a1'', ''a2'', ''a3''] fresh_assistant) ! 2 = AudioIn ''a2''"
  using config_first_then_audio [where pulled = 3 and audio = "[''a1'', ''a2'', ''a3'']"
      and s = fresh_assistant and loads = loads_sample and h = handler_sample
      and rpc = "rpc_of [] None"]
  by (simp add: gen_assist_requests_def numeral_3_eq_3)

section \<open>The conversation state across turns\<close>

text \<open>
  C5. A response with a non-empty \<^verbatim>\<open>dialog_state_out.conversation_state\<close> stores it in
  the assistant. An assistant that holds a conversation state yields, as its first
  request, a config whose conversation state is that value, unchanged. Together: when
  the body of \<^verbatim>\<open>assist\<close> returns and some response carried a conversation state, the
  assistant holds the last one carried, and the config sent by the next call of the body
  carries exactly it.
\<close>

theorem conversation_state_round_trip:
  "(resp_conversation_state r \<noteq> [] \<longrightarrow>
      conversation_state (fst (handle_response loads h r s cc fs)) =
        Some (resp_conversation_state r))
   \<and> (conversation_state s = Some t \<longrightarrow>
        fst (gen_assist_requests (Suc n) audio s) =
          Config (build_config s) # map AudioIn (take n audio)
        \<and> cfg_conversation_state (build_config s) = t)
   \<and> (\<forall>s1 cc1. assist_body loads h rpc s = (s1, Inr cc1)
        \<and> filter (\<lambda>t. t \<noteq> []) (map resp_conversation_state (rpc_responses rpc)) \<noteq> []
        \<and> rpc_pulled rpc' \<noteq> 0 \<longrightarrow>
        conversation_state s1 =
          Some (last (filter (\<lambda>t. t \<noteq> []) (map resp_conversation_state (rpc_responses rpc))))
        \<and> (\<exists>c. sent_configs (trace (fst (assist_body loads h rpc' s1))) =
                  sent_configs (trace s1) @ [c]
               \<and> cfg_conversation_state c =
                  last (filter (\<lambda>t. t \<noteq> []) (map resp_conversation_state (rpc_responses rpc)))))"
proof -
  have a: "resp_conversation_state r \<noteq> [] \<longrightarrow>
      conversation_state (fst (handle_response loads h r s cc fs)) =
        Some (resp_conversation_state r)"
    by (simp add: handle_response_conversation_state)
  have b: "conversation_state s = Some t \<longrightarrow>
        fst (gen_assist_requests (Suc n) audio s) =
          Config (build_config s) # map AudioIn (take n audio)
        \<and> cfg_conversation_state (build_config s) = t"
    by (simp add: gen_assist_requests_def build_config_def)
  have c: "\<forall>s1 cc1. assist_body loads h rpc s = (s1, Inr cc1)
        \<and> filter (\<lambda>t. t \<noteq> []) (map resp_conversation_state (rpc_responses rpc)) \<noteq> []
        \<and> rpc_pulled rpc' \<noteq> 0 \<longrightarrow>
        conversation_state s1 =
          Some (last (filter (\<lambda>t. t \<noteq> []) (map resp_conversation_state (rpc_responses rpc))))
        \<and> (\<exists>c. sent_configs (trace (fst (assist_body loads h rpc' s1))) =
                  sent_configs (trace s1) @ [c]
               \<and> cfg_conversation_state c =
                  last (filter (\<lambda>t. t \<noteq> []) (map resp_conversation_state (rpc_responses rpc))))"
  proof (intro allI impI, elim conjE)
    fix s1 cc1
    let ?toks = "filter (\<lambda>t. t \<noteq> []) (map resp_conversation_state (rpc_responses rpc))"
    assume run: "assist_body loads h rpc s = (s1, Inr cc1)" and ne: "?toks \<noteq> []"
      and p: "rpc_pulled rpc' \<noteq> 0"
    from assist_body_conversation_state [OF run] ne
    have st: "conversation_state s1 = Some (last ?toks)" by (simp add: Let_def)
    have "sent_configs (trace (fst (assist_body loads h rpc' s1))) =
        sent_configs (trace s1) @ [build_config s1]"
      using p by (simp add: assist_body_sent)
    moreover have "cfg_conversation_state (build_config s1) = last ?toks"
      using st by (simp add: build_config_def)
    ultimately show "conversation_state s1 = Some (last ?toks)
        \<and> (\<exists>c. sent_configs (trace (fst (assist_body loads h rpc' s1))) =
                  sent_configs (trace s1) @ [c]
               \<and> cfg_conversation_state c = last ?toks)"
      using st by blast
  qed
  from a b c show ?thesis by blast
qed

theorem conversation_state_round_trip_witness:
  "conversation_state (fst (handle_response loads_sample handler_sample
       (no_response\<lparr>resp_conversation_state := ''t1''\<rparr>) fresh_assistant False [])) = Some ''t1''
   \<and> cfg_conversation_state (build_config (fresh_assistant\<lparr>conversation_state := Some ''t1''\<rparr>)) = ''t1''
   \<and> conversation_state (fst (assist_body loads_sample handler_sample
         (rpc_of [no_response\<lparr>resp_conversation_state := ''t1''\<rparr>,
                  no_response\<lparr>resp_conversation_state := ''t2''\<rparr>, no_response] None)
         fresh_assistant)) = Some ''t2''
   \<and> map cfg_conversation_state (sent_configs (trace (fst (assist_body loads_sample handler_sample
         (rpc_of [] None)
         (fst (assist_body loads_sample handler_sample
            (rpc_of [no_response\<lparr>resp_conversation_state := ''t1''\<rparr>,
                     no_response\<lparr>resp_conversation_state := ''t2''\<rparr>, no_response] None)
            fresh_assistant)))))) = [[], ''t2'']"
proof -
  let ?rpc = "rpc_of [no_response\<lparr>resp_conversation_state := ''t1''\<rparr>,
                     no_response\<lparr>resp_conversation_state := ''t2''\<rparr>, no_response] None"
  let ?s1 = "fst (assist_body loads_sample handler_sample ?rpc fresh_assistant)"
  have run: "assist_body loads_sample handler_sample ?rpc fresh_assistant = (?s1, Inr False)"
    by (rule prod_eqI) (simp_all add: assist_body_result sample_defs decodable_def
        on_microphone_mode_def)
  have first: "sent_configs (trace ?s1) = [build_config fresh_assistant]"
    by (simp add: assist_body_sent) (simp add: sample_defs)
  have none: "cfg_conversation_state (build_config fresh_assistant) = []"
    by (simp add: build_config_def sample_defs)
  from conversation_state_round_trip [where r = "no_response\<lparr>resp_conversation_state := ''t1''\<rparr>"
      and loads = loads_sample and h = handler_sample and cc = False and fs = "[]"
      and s = fresh_assistant and rpc = ?rpc and rpc' = "rpc_of [] None" and t = "''t1''"
      and n = 0 and audio = "[]"]
    conversation_state_round_trip [where r = no_response
      and loads = loads_sample and h = handler_sample and cc = False and fs = "[]"
      and s = "fresh_assistant\<lparr>conversation_state := Some ''t1''\<rparr>" and rpc = ?rpc
      and rpc' = "rpc_of [] None" and t = "''t1''" and n = 0 and audio = "[]"]
    run first none
  show ?thesis
    by (auto simp: sample_defs)
qed

section \<open>The end of a turn\<close>

text \<open>
  C6. When the loop over the responses ends normally and the response iterator raised no
  error, the body of \<^verbatim>\<open>assist\<close> waits for the futures collected during the loop (they
  are those the handler returned for the device requests, in order; with none collected
  there is nothing to wait for), then calls \<^verbatim>\<open>stop_playback\<close>, and returns: these are the
  last calls in the log, the stream is not playing afterwards, whether or not playback
  ever started.
\<close>

theorem end_of_turn_waits_then_stops:
  assumes "assist_loop loads h (rpc_responses rpc) (send_requests rpc (start_recording s))
             False [] = (s1, Inr (cc, fs))"
    and "rpc_error rpc = None"
  shows "assist_body loads h rpc s = (stop_playback (wait_futures fs s1), Inr cc)
    \<and> fs = device_futures loads h (rpc_responses rpc)
    \<and> trace (fst (assist_body loads h rpc s)) =
        trace s1 @ (if fs = [] then [] else [WaitFutures fs]) @ [StopPlayback]
    \<and> \<not> playing (stream (fst (assist_body loads h rpc s)))"
proof -
  from assms have body: "assist_body loads h rpc s = (stop_playback (wait_futures fs s1), Inr cc)"
    by (simp add: assist_body_def)
  have "snd (assist_loop loads h (rpc_responses rpc) (send_requests rpc (start_recording s))
             False []) = Inr (cc, fs)"
    using assms(1) by simp
  then have "fs = device_futures loads h (rpc_responses rpc)"
    by (simp add: assist_loop_result split: if_splits)
  with body show ?thesis by simp
qed

theorem end_of_turn_waits_then_stops_witness:
  "trace (fst (assist_body loads_sample handler_sample (rpc_of [] None) fresh_assistant)) =
     [StartRecording, Sent (Config (build_config fresh_assistant)), StopPlayback]
   \<and> \<not> playing (stream (fst (assist_body loads_sample handler_sample (rpc_of [] None)
            fresh_assistant)))
   \<and> trace (fst (assist_body loads_sample handler_sample
        (rpc_of [no_response\<lparr>resp_device_request_json := ''{}''\<rparr>,
                 no_response\<lparr>resp_audio_data := ''AB''\<rparr>] None) fresh_assistant)) =
     [StartRecording, Sent (Config (build_config fresh_assistant)),
      StopRecording, StartPlayback, Write ''AB'', WaitFutures [7], StopPlayback]
   \<and> \<not> playing (stream (fst (assist_body loads_sample handler_sample
        (rpc_of [no_response\<lparr>resp_device_request_json := ''{}''\<rparr>,
                 no_response\<lparr>resp_audio_data := ''AB''\<rparr>] None) fresh_assistant)))"
proof -
  let ?r0 = "rpc_of [] None"
  let ?r1 = "rpc_of [no_response\<lparr>resp_device_request_json := ''{}''\<rparr>,
                 no_response\<lparr>resp_audio_data := ''AB''\<rparr>] None"
  let ?l0 = "assist_loop loads_sample handler_sample (rpc_responses ?r0)
       (send_requests ?r0 (start_recording fresh_assistant)) False []"
  let ?l1 = "assist_loop loads_sample handler_sample (rpc_responses ?r1)
       (send_requests ?r1 (start_recording fresh_assistant)) False []"
  have e0: "?l0 = (fst ?l0, Inr (False, []))"
    by (rule prod_eqI) (simp_all add: assist_loop_result sample_defs decodable_def)
  have e1: "?l1 = (fst ?l1, Inr (False, [7]))"
    by (rule prod_eqI) (simp_all add: assist_loop_result sample_defs decodable_def
        on_microphone_mode_def del: assist_loop.simps)
  have n0: "rpc_error ?r0 = None" and n1: "rpc_error ?r1 = None"
    by (simp_all add: rpc_of_def)
  have t0: "trace (fst ?l0) = [StartRecording, Sent (Config (build_config fresh_assistant))]"
    by (simp add: sample_defs gen_assist_requests_def)
  have t1: "trace (fst ?l1) = [StartRecording, Sent (Config (build_config fresh_assistant)),
      StopRecording, StartPlayback, Write ''AB'']"
    by (simp add: sample_defs gen_assist_requests_def step_defs)
  note w0 = end_of_turn_waits_then_stops [OF e0 n0]
  note w1 = end_of_turn_waits_then_stops [OF e1 n1]
  have a0: "trace (fst (assist_body loads_sample handler_sample ?r0 fresh_assistant)) =
     [StartRecording, Sent (Config (build_config fresh_assistant)), StopPlayback]"
    using w0 [THEN conjunct2, THEN conjunct2, THEN conjunct1] by (simp add: t0)
  have a1: "trace (fst (assist_body loads_sample handler_sample ?r1 fresh_assistant)) =
     [StartRecording, Sent (Config (build_config fresh_assistant)),
      StopRecording, StartPlayback, Write ''AB'', WaitFutures [7], StopPlayback]"
    using w1 [THEN conjunct2, THEN conjunct2, THEN conjunct1] by (simp add: t1)
  from a0 a1 w0 [THEN conjunct2, THEN conjunct2, THEN conjunct2]
    w1 [THEN conjunct2, THEN conjunct2, THEN conjunct2]
  show ?thesis by blast
qed

section \<open>A device request that does not decode\<close>

text \<open>
  C7, as amended. When the device request of a response is present and does not decode,
  and those of the responses before it do, the body of \<^verbatim>\<open>assist\<close> raises the
  \<^verbatim>\<open>ValueError\<close> of the decoder at that response: the assistant is left as the earlier
  steps of that response left it, the buffers written are those of the responses up to
  and including it, the responses after it are not handled, playback is not stopped, and
  \<^verbatim>\<open>assist\<close> raises the error after this one attempt.
\<close>

theorem malformed_device_request_raises:
  assumes "rpc_responses rpc = pre @ r # post" and "decodable loads pre"
    and "resp_device_request_json r \<noteq> []" and "loads (resp_device_request_json r) = None"
  shows "snd (assist_body loads h rpc s) = Inl ValueError
    \<and> fst (assist_body loads h rpc s) =
        fst (handle_response loads h r
               (fst (assist_loop loads h pre (send_requests rpc (start_recording s)) False []))
               False [])
    \<and> written (trace (fst (assist_body loads h rpc s))) =
        written (trace s) @ filter (\<lambda>d. d \<noteq> []) (map resp_audio_data (pre @ [r]))
    \<and> StopPlayback \<notin> set (drop (length (trace s)) (trace (fst (assist_body loads h rpc s))))
    \<and> assist loads h (rpcs(1 := rpc)) s = (fst (assist_body loads h rpc s), Inl ValueError, 1)"
proof -
  let ?s0 = "send_requests rpc (start_recording s)"
  let ?sp = "fst (assist_loop loads h pre ?s0 False [])"
  let ?cc = "foldl (\<lambda>c r. on_microphone_mode r c) False pre"
  let ?fs = "[] @ device_futures loads h pre"
  have nd: "\<not> decodable loads (rpc_responses rpc)"
    using assms by (simp add: decodable_def)
  then have res: "snd (assist_body loads h rpc s) = Inl ValueError"
    by (simp add: assist_body_result)
  have hr: "snd (handle_response loads h r ?sp ?cc ?fs) = Inl ValueError"
    using assms(3,4) by (simp add: handle_response_result)
  have indep: "fst (handle_response loads h r ?sp ?cc ?fs) =
      fst (handle_response loads h r ?sp False [])"
    by (simp add: handle_response_def Let_def split: option.splits)
  have "assist_loop loads h (rpc_responses rpc) ?s0 False [] =
      assist_loop loads h (r # post) ?sp ?cc ?fs"
    unfolding assms(1) by (rule assist_loop_append [OF assms(2)])
  also have "\<dots> = (fst (handle_response loads h r ?sp ?cc ?fs), Inl ValueError)"
    using hr by (simp add: assist_loop_Cons del: assist_loop.simps(2))
  finally have loop: "assist_loop loads h (rpc_responses rpc) ?s0 False [] =
      (fst (handle_response loads h r ?sp False []), Inl ValueError)"
    by (simp only: indep)
  then have st: "fst (assist_body loads h rpc s) = fst (handle_response loads h r ?sp False [])"
    by (simp add: assist_body_def)
  obtain res_pre where lp: "assist_loop loads h pre ?s0 False [] = (?sp, Inr res_pre)"
    using assist_loop_result [of loads h pre ?s0 False "[]"] assms(2)
    by (cases "assist_loop loads h pre ?s0 False []") simp
  have "written (trace ?s0) = written (trace s)"
  proof -
    have "written (map Sent xs) = []" for xs
      by (induction xs) simp_all
    then show ?thesis by simp
  qed
  with assist_loop_written_ok [OF lp]
  have "written (trace ?sp) = written (trace s) @ filter (\<lambda>d. d \<noteq> []) (map resp_audio_data pre)"
    by simp
  then have wr: "written (trace (fst (assist_body loads h rpc s))) =
        written (trace s) @ filter (\<lambda>d. d \<noteq> []) (map resp_audio_data (pre @ [r]))"
    by (simp add: st handle_response_written)
  from assist_body_new_events [of loads h rpc s] obtain new where
    new: "trace (fst (assist_body loads h rpc s)) = trace s @ new"
      "StopPlayback \<in> set new \<longrightarrow> (\<exists>cc. snd (assist_body loads h rpc s) = Inr cc)"
    by blast
  from new(2) res have "StopPlayback \<notin> set new" by auto
  with new(1) have sp: "StopPlayback \<notin> set (drop (length (trace s))
      (trace (fst (assist_body loads h rpc s))))"
    by simp
  have "assist loads h (rpcs(1 := rpc)) s = (fst (assist_body loads h rpc s), Inl ValueError, 1)"
    by (simp add: assist_unfold Let_def res)
  with res st wr sp show ?thesis by simp
qed

theorem malformed_device_request_raises_witness:
  "assist loads_sample handler_sample
     (\<lambda>k. rpc_of [no_response\<lparr>resp_audio_data := ''AB'', resp_device_request_json := ''{}''\<rparr>,
                  no_response\<lparr>resp_audio_data := ''CD'', resp_device_request_json := ''{''\<rparr>,
                  no_response\<lparr>resp_audio_data := ''EF''\<rparr>] None)
     fresh_assistant =
   (fst (assist_body loads_sample handler_sample
      (rpc_of [no_response\<lparr>resp_audio_data := ''AB'', resp_device_request_json := ''{}''\<rparr>,
               no_response\<lparr>resp_audio_data := ''CD'', resp_device_request_json := ''{''\<rparr>,
               no_response\<lparr>resp_audio_data := ''EF''\<rparr>] None) fresh_assistant),
    Inl ValueError, 1)
   \<and> written (trace (fst (assist_body loads_sample handler_sample
      (rpc_of [no_response\<lparr>resp_audio_data := ''AB'', resp_device_request_json := ''{}''\<rparr>,
               no_response\<lparr>resp_audio_data := ''CD'', resp_device_request_json := ''{''\<rparr>,
               no_response\<lparr>resp_audio_data := ''EF''\<rparr>] None) fresh_assistant))) =
     [''AB'', ''CD'']"
proof -
  let ?rpc = "rpc_of [no_response\<lparr>resp_audio_data := ''AB'', resp_device_request_json := ''{}''\<rparr>,
               no_response\<lparr>resp_audio_data := ''CD'', resp_device_request_json := ''{''\<rparr>,
               no_response\<lparr>resp_audio_data := ''EF''\<rparr>] None"
  have 1: "rpc_responses ?rpc =
      [no_response\<lparr>resp_audio_data := ''AB'', resp_device_request_json := ''{}''\<rparr>]
      @ no_response\<lparr>resp_audio_data := ''CD'', resp_device_request_json := ''{''\<rparr>
      # [no_response\<lparr>resp_audio_data := ''EF''\<rparr>]"
    by (simp add: rpc_of_def)
  have 2: "decodable loads_sample
      [no_response\<lparr>resp_audio_data := ''AB'', resp_device_request_json := ''{}''\<rparr>]"
    by (simp add: decodable_def loads_sample_def)
  have 3: "resp_device_request_json
      (no_response\<lparr>resp_audio_data := ''CD'', resp_device_request_json := ''{''\<rparr>) \<noteq> []"
    by simp
  have 4: "loads_sample (resp_device_request_json
      (no_response\<lparr>resp_audio_data := ''CD'', resp_device_request_json := ''{''\<rparr>)) = None"
    by (simp add: loads_sample_def)
  have fu: "(\<lambda>k. ?rpc) = (\<lambda>k. ?rpc)(1 := ?rpc)" by auto
  note w = malformed_device_request_raises [OF 1 2 3 4, of handler_sample fresh_assistant
      "\<lambda>k. ?rpc"]
  have a: "assist loads_sample handler_sample (\<lambda>k. ?rpc) fresh_assistant =
      (fst (assist_body loads_sample handler_sample ?rpc fresh_assistant), Inl ValueError, 1)"
    using w [THEN conjunct2, THEN conjunct2, THEN conjunct2, THEN conjunct2]
    by (subst fu) simp
  have b: "written (trace (fst (assist_body loads_sample handler_sample ?rpc fresh_assistant))) =
     [''AB'', ''CD'']"
    using w [THEN conjunct2, THEN conjunct2, THEN conjunct1]
    by (simp add: fresh_assistant_def init_def)
  from a b show ?thesis by simp
qed

text \<open>
  C7 as stated fails: with a first response whose device request is the text \<^verbatim>\<open>{\<close> and
  a second response carrying audio and \<^verbatim>\<open>DIALOG_FOLLOW_ON\<close>, \<^verbatim>\<open>assist\<close> raises
  \<^verbatim>\<open>ValueError\<close>, and nothing of the second response reaches the stream.
\<close>

theorem malformed_device_request_counterexample:
  "fst (snd (assist loads_sample handler_sample
      (\<lambda>k. rpc_of [no_response\<lparr>resp_device_request_json := ''{''\<rparr>,
                   no_response\<lparr>resp_audio_data := ''AB'',
                     resp_microphone_mode := DIALOG_FOLLOW_ON\<rparr>] None)
      fresh_assistant)) = Inl ValueError
   \<and> trace (fst (assist loads_sample handler_sample
      (\<lambda>k. rpc_of [no_response\<lparr>resp_device_request_json := ''{''\<rparr>,
                   no_response\<lparr>resp_audio_data := ''AB'',
                     resp_microphone_mode := DIALOG_FOLLOW_ON\<rparr>] None)
      fresh_assistant)) = [StartRecording, Sent (Config (build_config fresh_assistant))]"
proof -
  let ?rpc = "rpc_of [no_response\<lparr>resp_device_request_json := ''{''\<rparr>,
                   no_response\<lparr>resp_audio_data := ''AB'',
                     resp_microphone_mode := DIALOG_FOLLOW_ON\<rparr>] None"
  have res: "snd (assist_body loads_sample handler_sample ?rpc fresh_assistant) = Inl ValueError"
    by (simp add: assist_body_result rpc_of_def decodable_def loads_sample_def no_response_def)
  have tr: "trace (fst (assist_body loads_sample handler_sample ?rpc fresh_assistant)) =
      [StartRecording, Sent (Config (build_config fresh_assistant))]"
    by (simp add: assist_body_def rpc_of_def loads_sample_def no_response_def
        gen_assist_requests_def step_defs fresh_assistant_def init_def)
  show ?thesis
    by (simp add: assist_unfold Let_def res tr)
qed

section \<open>Closing the conversation stream\<close>

lemma close_count_assist_body:
  "count_list (trace (fst (assist_body loads h rpc s))) Close = count_list (trace s) Close"
proof -
  from assist_body_new_events [of loads h rpc s] obtain new where
    "trace (fst (assist_body loads h rpc s)) = trace s @ new" "Close \<notin> set new"
    by blast
  then show ?thesis by simp
qed

lemma close_count_assist:
  "count_list (trace (fst (assist loads h rpcs s))) Close = count_list (trace s) Close"
  unfolding assist_def
proof (rule retry_call_rel
    [where R = "\<lambda>s s'. count_list (trace s') Close = count_list (trace s) Close"])
  show "count_list (trace (fst (assist_body loads h (rpcs k) s))) Close =
      count_list (trace s) Close" for k s
    by (rule close_count_assist_body)
  show "count_list (trace b) Close = count_list (trace a) Close \<Longrightarrow>
      count_list (trace c) Close = count_list (trace b) Close \<Longrightarrow>
      count_list (trace c) Close = count_list (trace a) Close" for a b c
    by simp
qed

lemma main_once_unfold:
  "main_once loads h rpcs s =
     (case fst (snd (assist loads h rpcs s)) of
        Inl e \<Rightarrow> (fst (assist loads h rpcs s), Inl e)
      | Inr cc \<Rightarrow> (close (fst (assist loads h rpcs s)), Inr (Some ())))"
proof -
  obtain s' r k where a: "assist loads h rpcs s = (s', r, k)"
    by (cases "assist loads h rpcs s")
  then show ?thesis
    by (cases r) (simp_all add: main_once_def with_assistant_def exit_def)
qed

text \<open>
  C8, as amended. \<^verbatim>\<open>__exit__\<close> closes the conversation stream, once, when no exception
  leaves the \<^verbatim>\<open>with\<close> block, and returns without closing it when one does; in neither
  case does it suppress the exception. So a block that returns leaves the stream closed,
  and a block that raises leaves the assistant as it was and raises the same exception.
  For the block of \<^verbatim>\<open>main\<close> with one call of \<^verbatim>\<open>assist\<close>: when \<^verbatim>\<open>assist\<close> returns, the
  log gains exactly one \<^verbatim>\<open>close\<close>; when it raises, it gains none and the exception goes
  on.
\<close>

theorem exit_closes_only_without_error:
  "exit None s = (close s, False)
   \<and> trace (close s) = trace s @ [Close]
   \<and> exit (Some e) s = (s, False)
   \<and> (\<forall>s' v. body s = (s', Inr v) \<longrightarrow> with_assistant body s = (close s', Inr (Some v)))
   \<and> (\<forall>s' e'. body s = (s', Inl e') \<longrightarrow> with_assistant body s = (s', Inl e'))
   \<and> (\<forall>cc. fst (snd (assist loads h rpcs s)) = Inr cc \<longrightarrow>
         snd (main_once loads h rpcs s) = Inr (Some ())
         \<and> count_list (trace (fst (main_once loads h rpcs s))) Close =
             count_list (trace s) Close + 1)
   \<and> (\<forall>e'. fst (snd (assist loads h rpcs s)) = Inl e' \<longrightarrow>
         snd (main_once loads h rpcs s) = Inl e'
         \<and> count_list (trace (fst (main_once loads h rpcs s))) Close =
             count_list (trace s) Close)"
proof -
  have a: "exit None s = (close s, False)" "exit (Some e) s = (s, False)"
    by (simp_all add: exit_def)
  have b: "trace (close s) = trace s @ [Close]" for s
    by (simp add: close_def)
  have c: "\<forall>s' v. body s = (s', Inr v) \<longrightarrow> with_assistant body s = (close s', Inr (Some v))"
    by (simp add: with_assistant_def exit_def)
  have d: "\<forall>s' e'. body s = (s', Inl e') \<longrightarrow> with_assistant body s = (s', Inl e')"
    by (simp add: with_assistant_def exit_def)
  have f: "\<forall>cc. fst (snd (assist loads h rpcs s)) = Inr cc \<longrightarrow>
         snd (main_once loads h rpcs s) = Inr (Some ())
         \<and> count_list (trace (fst (main_once loads h rpcs s))) Close =
             count_list (trace s) Close + 1"
    by (simp add: main_once_unfold b close_count_assist)
  have g: "\<forall>e'. fst (snd (assist loads h rpcs s)) = Inl e' \<longrightarrow>
         snd (main_once loads h rpcs s) = Inl e'
         \<and> count_list (trace (fst (main_once loads h rpcs s))) Close =
             count_list (trace s) Close"
    by (simp add: main_once_unfold close_count_assist)
  from a b [of s] c d f g show ?thesis by blast
qed

theorem exit_closes_only_without_error_witness:
  "snd (main_once loads_sample handler_sample (\<lambda>k. rpc_of [no_response] None) fresh_assistant) =
     Inr (Some ())
   \<and> count_list (trace (fst (main_once loads_sample handler_sample
        (\<lambda>k. rpc_of [no_response] None) fresh_assistant))) Close = 1
   \<and> snd (main_once loads_sample handler_sample
        (\<lambda>k. rpc_of [no_response] (Some UNAUTHENTICATED)) fresh_assistant) =
     Inl (RpcError UNAUTHENTICATED)
   \<and> count_list (trace (fst (main_once loads_sample handler_sample
        (\<lambda>k. rpc_of [no_response] (Some UNAUTHENTICATED)) fresh_assistant))) Close = 0"
proof -
  have r1: "snd (assist_body loads_sample handler_sample (rpc_of [no_response] (Some c)) s) =
      Inl (RpcError c)" for s c
    by (simp add: assist_body_result rpc_of_def decodable_def no_response_def)
  have r2: "snd (assist_body loads_sample handler_sample (rpc_of [no_response] None) s) =
      Inr False" for s
    by (simp add: assist_body_result rpc_of_def decodable_def no_response_def
        on_microphone_mode_def)
  have ok: "fst (snd (assist loads_sample handler_sample (\<lambda>k. rpc_of [no_response] None)
      fresh_assistant)) = Inr False"
    by (simp add: assist_unfold Let_def r2)
  have bad: "fst (snd (assist loads_sample handler_sample
      (\<lambda>k. rpc_of [no_response] (Some UNAUTHENTICATED)) fresh_assistant)) =
      Inl (RpcError UNAUTHENTICATED)"
    by (simp add: assist_unfold Let_def r1)
  have t0: "count_list (trace fresh_assistant) Close = 0"
    by (simp add: fresh_assistant_def init_def)
  note w1 = exit_closes_only_without_error [where s = fresh_assistant and loads = loads_sample
      and h = handler_sample and rpcs = "\<lambda>k. rpc_of [no_response] None"]
  note w2 = exit_closes_only_without_error [where s = fresh_assistant and loads = loads_sample
      and h = handler_sample and rpcs = "\<lambda>k. rpc_of [no_response] (Some UNAUTHENTICATED)"]
  note f = w1 [THEN conjunct2, THEN conjunct2, THEN conjunct2, THEN conjunct2, THEN conjunct2,
      THEN conjunct1, rule_format, OF ok]
  note g = w2 [THEN conjunct2, THEN conjunct2, THEN conjunct2, THEN conjunct2, THEN conjunct2,
      THEN conjunct2, rule_format, OF bad]
  from f t0 have a: "snd (main_once loads_sample handler_sample
        (\<lambda>k. rpc_of [no_response] None) fresh_assistant) = Inr (Some ())
     \<and> count_list (trace (fst (main_once loads_sample handler_sample
        (\<lambda>k. rpc_of [no_response] None) fresh_assistant))) Close = 1"
    by simp
  from g t0 have b: "snd (main_once loads_sample handler_sample
        (\<lambda>k. rpc_of [no_response] (Some UNAUTHENTICATED)) fresh_assistant) =
        Inl (RpcError UNAUTHENTICATED)
     \<and> count_list (trace (fst (main_once loads_sample handler_sample
        (\<lambda>k. rpc_of [no_response] (Some UNAUTHENTICATED)) fresh_assistant))) Close = 0"
    by simp
  from a b show ?thesis by simp
qed

text \<open>
  C8 as stated fails: when \<^verbatim>\<open>assist\<close> raises, here because the service answers
  \<^verbatim>\<open>UNAUTHENTICATED\<close>, the session is left without a call of \<^verbatim>\<open>close\<close>.
\<close>

theorem close_on_error_counterexample:
  "snd (main_once loads_sample handler_sample
        (\<lambda>k. rpc_of [no_response] (Some UNAUTHENTICATED)) fresh_assistant) =
     Inl (RpcError UNAUTHENTICATED)
   \<and> Close \<notin> set (trace (fst (main_once loads_sample handler_sample
        (\<lambda>k. rpc_of [no_response] (Some UNAUTHENTICATED)) fresh_assistant)))
   \<and> trace (fst (exit (Some (RpcError UNAUTHENTICATED)) fresh_assistant)) = []"
proof -
  have r1: "snd (assist_body loads_sample handler_sample (rpc_of [no_response] (Some c)) s) =
      Inl (RpcError c)" for s c
    by (simp add: assist_body_result rpc_of_def decodable_def no_response_def)
  have bad: "fst (snd (assist loads_sample handler_sample
      (\<lambda>k. rpc_of [no_response] (Some UNAUTHENTICATED)) fresh_assistant)) =
      Inl (RpcError UNAUTHENTICATED)"
    by (simp add: assist_unfold Let_def r1)
  have "count_list (trace (fst (assist loads_sample handler_sample
      (\<lambda>k. rpc_of [no_response] (Some UNAUTHENTICATED)) fresh_assistant))) Close = 0"
    by (simp add: close_count_assist fresh_assistant_def init_def)
  then have "Close \<notin> set (trace (fst (assist loads_sample handler_sample
      (\<lambda>k. rpc_of [no_response] (Some UNAUTHENTICATED)) fresh_assistant)))"
    by (simp add: count_list_0_iff)
  with bad show ?thesis
    by (simp add: main_once_unfold exit_def fresh_assistant_def init_def)
qed

section \<open>The flag of a new conversation\<close>

lemma flag_step_refl: "flag_step s s"
  by (simp add: flag_step_def)

lemma flag_step_trans:
  assumes "flag_step a b" and "flag_step b c"
  shows "flag_step a c"
proof -
  from assms(1) obtain n1 where
    n1: "sent_configs (trace b) = sent_configs (trace a) @ n1"
      "list_all (\<lambda>c. \<not> cfg_is_new_conversation c) (tl n1)"
      "if n1 = [] then is_new_conversation b = is_new_conversation a
       else cfg_is_new_conversation (hd n1) = is_new_conversation a \<and> \<not> is_new_conversation b"
    unfolding flag_step_def by blast
  from assms(2) obtain n2 where
    n2: "sent_configs (trace c) = sent_configs (trace b) @ n2"
      "list_all (\<lambda>c. \<not> cfg_is_new_conversation c) (tl n2)"
      "if n2 = [] then is_new_conversation c = is_new_conversation b
       else cfg_is_new_conversation (hd n2) = is_new_conversation b \<and> \<not> is_new_conversation c"
    unfolding flag_step_def by blast
  have 1: "sent_configs (trace c) = sent_configs (trace a) @ (n1 @ n2)"
    using n1(1) n2(1) by simp
  have 2: "list_all (\<lambda>c. \<not> cfg_is_new_conversation c) (tl (n1 @ n2))"
  proof (cases n1)
    case Nil
    with n2(2) show ?thesis by simp
  next
    case (Cons x xs)
    with n1(3) have nb: "\<not> is_new_conversation b" by simp
    have "list_all (\<lambda>c. \<not> cfg_is_new_conversation c) n2"
    proof (cases n2)
      case Nil
      then show ?thesis by simp
    next
      case (Cons y ys)
      with n2(2) n2(3) nb show ?thesis by simp
    qed
    with n1(2) Cons show ?thesis by simp
  qed
  have 3: "if n1 @ n2 = [] then is_new_conversation c = is_new_conversation a
       else cfg_is_new_conversation (hd (n1 @ n2)) = is_new_conversation a
            \<and> \<not> is_new_conversation c"
  proof (cases n1)
    case Nil
    with n1(3) n2(3) show ?thesis by (cases n2) simp_all
  next
    case (Cons x xs)
    with n1(3) n2(3) show ?thesis by (cases n2) simp_all
  qed
  from 1 2 3 show ?thesis unfolding flag_step_def by blast
qed

lemma flag_step_assist_body: "flag_step s (fst (assist_body loads h rpc s))"
proof -
  let ?new = "if rpc_pulled rpc = 0 then [] else [build_config s]"
  have "sent_configs (trace (fst (assist_body loads h rpc s))) = sent_configs (trace s) @ ?new"
    by (rule assist_body_sent)
  moreover have "list_all (\<lambda>c. \<not> cfg_is_new_conversation c) (tl ?new)" by simp
  moreover have "if ?new = []
       then is_new_conversation (fst (assist_body loads h rpc s)) = is_new_conversation s
       else cfg_is_new_conversation (hd ?new) = is_new_conversation s
            \<and> \<not> is_new_conversation (fst (assist_body loads h rpc s))"
    by (simp add: assist_body_is_new build_config_def)
  ultimately show ?thesis unfolding flag_step_def by blast
qed

lemma flag_step_assist: "flag_step s (fst (assist loads h rpcs s))"
  unfolding assist_def
proof (rule retry_call_rel [where R = flag_step])
  show "flag_step s (fst (assist_body loads h (rpcs k) s))" for k s
    by (rule flag_step_assist_body)
  show "flag_step a b \<Longrightarrow> flag_step b c \<Longrightarrow> flag_step a c" for a b c
    by (rule flag_step_trans)
qed

lemma flag_step_assist_calls:
  "flag_step s (assist_calls loads h turns s)"
proof (induction turns arbitrary: s)
  case Nil
  show ?case by (simp add: flag_step_refl)
next
  case (Cons rpcs turns)
  from flag_step_assist [of s loads h rpcs] Cons.IH [of "fst (assist loads h rpcs s)"]
  have "flag_step s (assist_calls loads h turns (fst (assist loads h rpcs s)))"
    by (rule flag_step_trans)
  then show ?case by simp
qed

text \<open>
  C10. A fresh assistant has \<^verbatim>\<open>is_new_conversation\<close> set, and the generator clears it when
  it yields its config. So among the configs sent during a session, over all its turns
  and all attempts of each turn, those after the first carry a false flag; the first one
  sent carries a true flag, and from then on the flag of the assistant is false. The
  same holds for the attempts of a single turn.
\<close>

theorem only_first_config_is_new:
  "is_new_conversation (init lang model_id dev_id cs disp)
   \<and> \<not> is_new_conversation (snd (gen_assist_requests (Suc n) audio s))
   \<and> (\<forall>c \<in> set (tl (sent_configs (trace (assist_calls loads h turns
                       (init lang model_id dev_id cs disp))))).
        \<not> cfg_is_new_conversation c)
   \<and> (sent_configs (trace (assist_calls loads h turns
          (init lang model_id dev_id cs disp))) \<noteq> [] \<longrightarrow>
        cfg_is_new_conversation (hd (sent_configs (trace (assist_calls loads h turns
          (init lang model_id dev_id cs disp)))))
        \<and> \<not> is_new_conversation (assist_calls loads h turns
          (init lang model_id dev_id cs disp)))
   \<and> (\<forall>c \<in> set (tl (sent_configs (trace (fst (assist loads h rpcs
                       (init lang model_id dev_id cs disp)))))).
        \<not> cfg_is_new_conversation c)"
proof -
  let ?s0 = "init lang model_id dev_id cs disp"
  have s0: "sent_configs (trace ?s0) = []" "is_new_conversation ?s0"
    by (simp_all add: init_def)
  have gen: "\<not> is_new_conversation (snd (gen_assist_requests (Suc n) audio s))"
    by (simp add: gen_assist_requests_def)
  have key: "flag_step ?s0 s' \<Longrightarrow>
     (\<forall>c \<in> set (tl (sent_configs (trace s'))). \<not> cfg_is_new_conversation c)
     \<and> (sent_configs (trace s') \<noteq> [] \<longrightarrow>
          cfg_is_new_conversation (hd (sent_configs (trace s'))) \<and> \<not> is_new_conversation s')"
    for s'
    unfolding flag_step_def using s0 by (auto simp: list_all_iff)
  from key [OF flag_step_assist_calls [of ?s0 loads h turns]]
    key [OF flag_step_assist [of ?s0 loads h rpcs]] gen s0(2)
  show ?thesis by blast
qed

theorem only_first_config_is_new_witness:
  "map cfg_is_new_conversation (sent_configs (trace (assist_calls loads_sample
       handler_sample
       [\<lambda>k. if k = 1 then rpc_of [] (Some UNAVAILABLE) else rpc_of [no_response] None,
        \<lambda>k. rpc_of [no_response] None]
       (init ''en-US'' ''model'' ''device'' idle_stream False)))) = [True, False, False]"
proof -
  let ?turns = "[\<lambda>k. if k = 1 then rpc_of [] (Some UNAVAILABLE) else rpc_of [no_response] None,
        \<lambda>k. rpc_of [no_response] None]"
  let ?s0 = "init ''en-US'' ''model'' ''device'' idle_stream False"
  let ?sent = "sent_configs (trace (assist_calls loads_sample handler_sample
      ?turns ?s0))"
  have r1: "snd (assist_body loads_sample handler_sample (rpc_of [] (Some UNAVAILABLE)) s) =
      Inl (RpcError UNAVAILABLE)" for s
    by (simp add: assist_body_result rpc_of_def decodable_def)
  have r2: "snd (assist_body loads_sample handler_sample (rpc_of [no_response] None) s) =
      Inr False" for s
    by (simp add: assist_body_result rpc_of_def decodable_def no_response_def
        on_microphone_mode_def)
  have p: "rpc_pulled (rpc_of rs e) = 1" for rs e
    by (simp add: rpc_of_def)
  have len: "length ?sent = 3"
    by (simp add: assist_unfold Let_def r1 r2 assist_body_sent p init_def)
  note w = only_first_config_is_new [where lang = "''en-US''" and model_id = "''model''"
      and dev_id = "''device''" and cs = idle_stream and disp = False
      and loads = loads_sample and h = handler_sample and turns = ?turns
      and rpcs = "\<lambda>k. rpc_of [no_response] None" and n = 0 and audio = "[]"
      and s = ?s0]
  have tl: "\<forall>c \<in> set (tl ?sent). \<not> cfg_is_new_conversation c"
    by (rule w [THEN conjunct2, THEN conjunct2, THEN conjunct1])
  have hd: "?sent \<noteq> [] \<longrightarrow> cfg_is_new_conversation (hd ?sent)
      \<and> \<not> is_new_conversation (assist_calls loads_sample handler_sample
      ?turns ?s0)"
    by (rule w [THEN conjunct2, THEN conjunct2, THEN conjunct2, THEN conjunct1])
  from len obtain a b c where abc: "?sent = [a, b, c]"
    by (auto simp: length_Suc_conv numeral_3_eq_3)
  with tl hd show ?thesis by simp
qed

end
